theory Spec2Isabelle
  imports Main "HOL-Library.AList"
begin

section \<open>Python values: errors, truthiness, indexing\<close>

text \<open>
  Every \<^verbatim>\<open>raise\<close> of the Python source is a value of this type. A function that can
  raise returns a sum, with \<open>Inl\<close> for the exception.
\<close>

datatype error = KeyError | IndexError | ValueError | TypeError | NameError

text \<open>Truthiness of an optional string: \<^verbatim>\<open>None\<close> and \<^verbatim>\<open>''\<close> are falsy.\<close>

definition truthy :: "string option \<Rightarrow> bool" where
  "truthy s = (case s of None \<Rightarrow> False | Some v \<Rightarrow> v \<noteq> [])"

text \<open>\<^verbatim>\<open>xs[i]\<close> on a Python list: a negative index counts from the end, out of range raises.\<close>

definition py_get :: "'a list \<Rightarrow> int \<Rightarrow> error + 'a" where
  "py_get xs i =
     (if 0 \<le> i \<and> i < int (length xs) then Inr (xs ! nat i)
      else if i < 0 \<and> - int (length xs) \<le> i then Inr (xs ! nat (int (length xs) + i))
      else Inl IndexError)"

section \<open>structure.py: the dependency graph\<close>

subsection \<open>Constants\<close>

definition BLANK :: string where "BLANK = ''_''"
definition ROOT_TAG :: string where "ROOT_TAG = ''@#r$%''"
definition DELIM_FEAT :: string where "DELIM_FEAT = ''|''"
definition DELIM_FEAT_KV :: string where "DELIM_FEAT_KV = ''=''"
definition DELIM_ARC :: string where "DELIM_ARC = '';''"
definition DELIM_ARC_KV :: string where "DELIM_ARC_KV = '':''"

subsection \<open>Nodes and the store\<close>

text \<open>
  \<^verbatim>\<open>NLPNode\<close> objects are mutable and compared by identity (\<^verbatim>\<open>__eq__\<close> and \<^verbatim>\<open>__hash__\<close> use
  \<^verbatim>\<open>id(self)\<close>), and they refer to each other. A node is therefore an address into a store,
  and every reference field holds addresses. The field \<^verbatim>\<open>lemma\<close> is written \<open>lemma_str\<close>.
  \<^verbatim>\<open>feats\<close> is an optional association list in insertion order, since the reader can store
  \<^verbatim>\<open>None\<close> there; \<^verbatim>\<open>deprels\<close> is a dictionary keyed by node identity.
\<close>

type_synonym addr = nat

record NLPNode =
  node_id :: int
  word :: "string option"
  lemma_str :: "string option"
  pos :: "string option"
  nament :: "string option"
  feats :: "(string \<times> string) list option"
  parent :: "addr option"
  children :: "addr list"
  secondary_parents :: "addr list"
  secondary_children :: "addr list"
  deprels :: "(addr \<times> string) list"

type_synonym heap = "NLPNode list"

text \<open>\<^verbatim>\<open>NLPNode.__init__\<close>: \<^verbatim>\<open>self.feats = feats or {}\<close> turns an absent or empty argument into
  a fresh empty dictionary.\<close>

definition new_NLPNode ::
  "int \<Rightarrow> string option \<Rightarrow> string option \<Rightarrow> string option \<Rightarrow> string option \<Rightarrow>
   (string \<times> string) list option \<Rightarrow> NLPNode" where
  "new_NLPNode i w l p n f =
     \<lparr>node_id = i, word = w, lemma_str = l, pos = p, nament = n,
      feats = Some (case f of None \<Rightarrow> [] | Some d \<Rightarrow> d),
      parent = None, children = [], secondary_parents = [], secondary_children = [],
      deprels = []\<rparr>"

text \<open>\<^verbatim>\<open>NLPNode()\<close> with every default: \<^verbatim>\<open>node_id = -1\<close>, all fields absent.\<close>

definition default_NLPNode :: NLPNode where
  "default_NLPNode = new_NLPNode (-1) None None None None None"

text \<open>\<^verbatim>\<open>NLPNode.root()\<close>.\<close>

definition root :: NLPNode where
  "root = new_NLPNode 0 (Some ROOT_TAG) (Some ROOT_TAG) (Some ROOT_TAG) (Some ROOT_TAG) None"

text \<open>Allocation puts the new object at the next free address.\<close>

definition alloc :: "heap \<Rightarrow> NLPNode \<Rightarrow> heap \<times> addr" where
  "alloc h n = (h @ [n], length h)"

subsection \<open>Ordering\<close>

text \<open>
  \<^verbatim>\<open>__lt__\<close> compares \<^verbatim>\<open>node_id\<close>. \<^verbatim>\<open>functools.total_ordering\<close> derives \<^verbatim>\<open>a > b\<close> from it as
  \<^verbatim>\<open>not (a < b) and a != b\<close>, where \<^verbatim>\<open>!=\<close> is non-identity.
\<close>

definition node_lt :: "heap \<Rightarrow> addr \<Rightarrow> addr \<Rightarrow> bool" where
  "node_lt h a b = (node_id (h ! a) < node_id (h ! b))"

definition node_gt :: "heap \<Rightarrow> addr \<Rightarrow> addr \<Rightarrow> bool" where
  "node_gt h a b = (\<not> node_lt h a b \<and> a \<noteq> b)"

subsection \<open>Sorted-sequence utilities (elit.util.bisect)\<close>

text \<open>
  Modelled from the spec: the module \<^verbatim>\<open>elit.util.bisect\<close> is imported by structure.py and
  is not among the source files. The spec (section 6) gives its contract: over a sequence
  ordered by \<^verbatim>\<open>node_id\<close>, a leftmost insertion-point search, a rightmost insertion-point
  search, an identity-based index lookup returning -1 if absent, an identity-based removal,
  and an order-preserving insertion. The insertion point is counted by scanning from the
  left, which is what a binary search returns on a sorted sequence.
\<close>

definition bisect_left :: "heap \<Rightarrow> addr list \<Rightarrow> addr \<Rightarrow> nat" where
  "bisect_left h xs x = length (takeWhile (\<lambda>a. node_lt h a x) xs)"

definition bisect_right :: "heap \<Rightarrow> addr list \<Rightarrow> addr \<Rightarrow> nat" where
  "bisect_right h xs x = length (takeWhile (\<lambda>a. \<not> node_lt h x a) xs)"

fun index_of :: "addr list \<Rightarrow> addr \<Rightarrow> nat \<Rightarrow> int" where
  "index_of [] x i = -1"
| "index_of (y # ys) x i = (if y = x then int i else index_of ys x (Suc i))"

definition bisect_index :: "addr list \<Rightarrow> addr \<Rightarrow> int" where
  "bisect_index xs x = index_of xs x 0"

definition bisect_remove :: "addr list \<Rightarrow> addr \<Rightarrow> addr list" where
  "bisect_remove xs x = remove1 x xs"

definition insort_right :: "heap \<Rightarrow> addr list \<Rightarrow> addr \<Rightarrow> addr list" where
  "insort_right h xs x = (let i = bisect_right h xs x in take i xs @ x # drop i xs)"

subsection \<open>Dependency labels\<close>

definition get_dependency_label :: "heap \<Rightarrow> addr \<Rightarrow> addr option \<Rightarrow> string option" where
  "get_dependency_label h self node =
     (let node' = (case node of None \<Rightarrow> parent (h ! self) | Some n \<Rightarrow> Some n)
      in case node' of None \<Rightarrow> None | Some n \<Rightarrow> map_of (deprels (h ! self)) n)"

definition set_dependency_label :: "heap \<Rightarrow> addr \<Rightarrow> addr \<Rightarrow> string option \<Rightarrow> heap" where
  "set_dependency_label h self node label =
     (if truthy label
      then h[self := (h ! self)\<lparr>deprels := AList.update node (the label) (deprels (h ! self))\<rparr>]
      else h)"

subsection \<open>set_parent\<close>

text \<open>
  The detaching half of \<^verbatim>\<open>set_parent\<close>: \<^verbatim>\<open>bisect_remove(prev_parent.children, self)\<close>, then
  \<^verbatim>\<open>del self.deprels[prev_parent]\<close>, which raises \<^verbatim>\<open>KeyError\<close> when the key is missing. The
  exception leaves the store as the removal made it, so the error carries that store.
\<close>

definition detach :: "heap \<Rightarrow> addr \<Rightarrow> (error \<times> heap) + heap" where
  "detach h self =
     (case parent (h ! self) of
        None \<Rightarrow> Inr h
      | Some p \<Rightarrow>
          (let h1 = h[p := (h ! p)\<lparr>children := bisect_remove (children (h ! p)) self\<rparr>]
           in if map_of (deprels (h1 ! self)) p = None then Inl (KeyError, h1)
              else Inr (h1[self := (h1 ! self)\<lparr>deprels := AList.delete p (deprels (h1 ! self))\<rparr>])))"

definition attach :: "heap \<Rightarrow> addr \<Rightarrow> addr option \<Rightarrow> string option \<Rightarrow> heap" where
  "attach h self node label =
     (let h1 = h[self := (h ! self)\<lparr>parent := node\<rparr>]
      in case node of
           None \<Rightarrow> h1
         | Some n \<Rightarrow>
             set_dependency_label
               (h1[n := (h1 ! n)\<lparr>children := insort_right h1 (children (h1 ! n)) self\<rparr>])
               self n label)"

definition set_parent ::
  "heap \<Rightarrow> addr \<Rightarrow> addr option \<Rightarrow> string option \<Rightarrow> (error \<times> heap) + (heap \<times> addr option)" where
  "set_parent h self node label =
     (let prev_parent = parent (h ! self)
      in case detach h self of
           Inl e \<Rightarrow> Inl e
         | Inr h1 \<Rightarrow> Inr (attach h1 self node label, prev_parent))"

subsection \<open>Secondary parents\<close>

definition add_secondary_parent :: "heap \<Rightarrow> addr \<Rightarrow> addr \<Rightarrow> string option \<Rightarrow> heap" where
  "add_secondary_parent h self node label =
     (let h1 = h[self := (h ! self)\<lparr>secondary_parents :=
                   insort_right h (secondary_parents (h ! self)) node\<rparr>];
          h2 = h1[node := (h1 ! node)\<lparr>secondary_children :=
                   insort_right h1 (secondary_children (h1 ! node)) self\<rparr>]
      in set_dependency_label h2 self node label)"

definition remove_secondary_parent :: "heap \<Rightarrow> addr \<Rightarrow> addr \<Rightarrow> heap \<times> bool" where
  "remove_secondary_parent h self node =
     (let idx = bisect_index (secondary_parents (h ! self)) node
      in if idx \<ge> 0
         then (h[self := (h ! self)\<lparr>
                  secondary_parents := take (nat idx) (secondary_parents (h ! self))
                                       @ drop (Suc (nat idx)) (secondary_parents (h ! self)),
                  deprels := AList.delete node (deprels (h ! self))\<rparr>], True)
         else (h, False))"

subsection \<open>Positional queries\<close>

text \<open>
  \<^verbatim>\<open>order\<close> is any Python integer, so the index is an \<open>int\<close> and the range test
  \<^verbatim>\<open>0 <= idx < len(...)\<close> is written out; the element is read only inside it.
\<close>

definition in_range :: "int \<Rightarrow> 'a list \<Rightarrow> bool" where
  "in_range idx xs = (0 \<le> idx \<and> idx < int (length xs))"

definition get_leftmost_child :: "heap \<Rightarrow> addr \<Rightarrow> int \<Rightarrow> addr option" where
  "get_leftmost_child h self order =
     (let idx = order; cs = children (h ! self)
      in if in_range idx cs \<and> node_lt h (cs ! nat idx) self then Some (cs ! nat idx) else None)"

definition get_rightmost_child :: "heap \<Rightarrow> addr \<Rightarrow> int \<Rightarrow> addr option" where
  "get_rightmost_child h self order =
     (let cs = children (h ! self); idx = int (length cs) - 1 - order
      in if in_range idx cs \<and> node_gt h (cs ! nat idx) self then Some (cs ! nat idx) else None)"

definition get_left_nearest_child :: "heap \<Rightarrow> addr \<Rightarrow> int \<Rightarrow> addr option" where
  "get_left_nearest_child h self order =
     (let cs = children (h ! self); idx = int (bisect_left h cs self) - 1 - order
      in if in_range idx cs then Some (cs ! nat idx) else None)"

definition get_right_nearest_child :: "heap \<Rightarrow> addr \<Rightarrow> int \<Rightarrow> addr option" where
  "get_right_nearest_child h self order =
     (let cs = children (h ! self); idx = int (bisect_right h cs self) + order
      in if in_range idx cs then Some (cs ! nat idx) else None)"

definition get_leftmost_sibling :: "heap \<Rightarrow> addr \<Rightarrow> int \<Rightarrow> addr option" where
  "get_leftmost_sibling h self order =
     (let idx = order
      in case parent (h ! self) of
           None \<Rightarrow> None
         | Some p \<Rightarrow>
             (let ps = children (h ! p)
              in if in_range idx ps \<and> node_lt h (ps ! nat idx) self
                 then Some (ps ! nat idx) else None))"

text \<open>The index is taken from \<^verbatim>\<open>len(self.children)\<close>, the node's own children, as the source
  has it, and then used in \<^verbatim>\<open>self.parent.children\<close>.\<close>

definition get_rightmost_sibling :: "heap \<Rightarrow> addr \<Rightarrow> int \<Rightarrow> addr option" where
  "get_rightmost_sibling h self order =
     (let idx = int (length (children (h ! self))) - 1 - order
      in case parent (h ! self) of
           None \<Rightarrow> None
         | Some p \<Rightarrow>
             (let ps = children (h ! p)
              in if in_range idx ps \<and> node_gt h (ps ! nat idx) self
                 then Some (ps ! nat idx) else None))"

definition get_left_nearest_sibling :: "heap \<Rightarrow> addr \<Rightarrow> int \<Rightarrow> addr option" where
  "get_left_nearest_sibling h self order =
     (case parent (h ! self) of
        None \<Rightarrow> None
      | Some p \<Rightarrow>
          (let ps = children (h ! p); idx = int (bisect_left h ps self) - 1 - order
           in if in_range idx ps then Some (ps ! nat idx) else None))"

definition get_right_nearest_sibling :: "heap \<Rightarrow> addr \<Rightarrow> int \<Rightarrow> addr option" where
  "get_right_nearest_sibling h self order =
     (case parent (h ! self) of
        None \<Rightarrow> None
      | Some p \<Rightarrow>
          (let ps = children (h ! p); idx = int (bisect_right h ps self) + 1 + order
           in if in_range idx ps then Some (ps ! nat idx) else None))"

subsection \<open>NLPGraph\<close>

text \<open>
  \<^verbatim>\<open>NLPGraph.__init__\<close> allocates a fresh root and copies the given references behind it;
  \<^verbatim>\<open>nodes\<close> may be absent (the default) or empty, and then only the root is stored.
\<close>

record NLPGraph =
  nodes :: "addr list"

definition new_NLPGraph :: "heap \<Rightarrow> addr list option \<Rightarrow> heap \<times> NLPGraph" where
  "new_NLPGraph h ns =
     (let (h1, r) = alloc h root
      in (h1, \<lparr>nodes = [r] @ (case ns of None \<Rightarrow> [] | Some l \<Rightarrow> l)\<rparr>))"

text \<open>\<^verbatim>\<open>__iter__\<close> and \<^verbatim>\<open>__next__\<close>: the elements of \<^verbatim>\<open>islice(self.nodes, 1, len(self.nodes))\<close>,
  in the order they are yielded.\<close>

definition islice :: "'a list \<Rightarrow> nat \<Rightarrow> nat \<Rightarrow> 'a list" where
  "islice xs start stop = drop start (take stop xs)"

definition graph_iter :: "NLPGraph \<Rightarrow> addr list" where
  "graph_iter g = islice (nodes g) 1 (length (nodes g))"

definition graph_len :: "NLPGraph \<Rightarrow> int" where
  "graph_len g = int (length (nodes g)) - 1"

subsection \<open>Textual rendering\<close>

text \<open>\<^verbatim>\<open>str(n)\<close> for an integer: decimal digits, with a leading minus sign.\<close>

definition digit_char :: "nat \<Rightarrow> char" where
  "digit_char n = ''0123456789'' ! n"

function str_nat :: "nat \<Rightarrow> string" where
  "str_nat n = (if n < 10 then [digit_char n] else str_nat (n div 10) @ [digit_char (n mod 10)])"
  by pat_completeness auto
termination
  by (relation "measure id") auto

declare str_nat.simps [simp del]

definition str_int :: "int \<Rightarrow> string" where
  "str_int i = (if i < 0 then CHR ''-'' # str_nat (nat (- i)) else str_nat (nat i))"

text \<open>\<^verbatim>\<open>sep.join(parts)\<close>.\<close>

fun join :: "string \<Rightarrow> string list \<Rightarrow> string" where
  "join sep [] = []"
| "join sep [s] = s"
| "join sep (s # t # ts) = s @ sep @ join sep (t # ts)"

definition or_blank :: "string option \<Rightarrow> string" where
  "or_blank s = (if truthy s then the s else BLANK)"

text \<open>
  The secondary-heads field joins \<^verbatim>\<open>str(parent.node_id)\<close> and the label of each secondary
  parent; \<^verbatim>\<open>str.join\<close> raises \<^verbatim>\<open>TypeError\<close> on a label that is \<^verbatim>\<open>None\<close>.
\<close>

fun sheads_parts :: "heap \<Rightarrow> addr \<Rightarrow> addr list \<Rightarrow> error + string list" where
  "sheads_parts h self [] = Inr []"
| "sheads_parts h self (p # ps) =
     (case get_dependency_label h self (Some p) of
        None \<Rightarrow> Inl TypeError
      | Some l \<Rightarrow>
          (case sheads_parts h self ps of
             Inl e \<Rightarrow> Inl e
           | Inr r \<Rightarrow> Inr (join DELIM_ARC_KV [str_int (node_id (h ! p)), l] # r)))"

definition TAB :: string where "TAB = [CHR 0x09]"
definition NEWLINE :: string where "NEWLINE = [CHR 0x0A]"

text \<open>\<^verbatim>\<open>NLPNode.__str__\<close>: the nine fields before they are joined, then the line.\<close>

definition node_fields :: "heap \<Rightarrow> addr \<Rightarrow> error + string list" where
  "node_fields h self =
     (let n = h ! self;
          node_id_s = str_int (node_id n);
          word_s = or_blank (word n);
          lemma_s = or_blank (lemma_str n);
          pos_s = or_blank (pos n);
          nament_s = or_blank (nament n);
          feats_s = (case feats n of
                       None \<Rightarrow> BLANK
                     | Some d \<Rightarrow> if d = [] then BLANK
                                else join DELIM_FEAT (map (\<lambda>(k, v). join DELIM_FEAT_KV [k, v]) d));
          head_id_s = (case parent n of None \<Rightarrow> BLANK | Some p \<Rightarrow> str_int (node_id (h ! p)));
          deprel_s = or_blank (get_dependency_label h self (parent n))
      in case (if secondary_parents n = [] then Inr BLANK
               else map_sum id (join DELIM_ARC) (sheads_parts h self (secondary_parents n))) of
           Inl e \<Rightarrow> Inl e
         | Inr sheads_s \<Rightarrow>
             Inr [node_id_s, word_s, lemma_s, pos_s, feats_s, head_id_s, deprel_s, sheads_s,
                  nament_s])"

definition node_str :: "heap \<Rightarrow> addr \<Rightarrow> error + string" where
  "node_str h self = map_sum id (join TAB) (node_fields h self)"

fun node_strs :: "heap \<Rightarrow> addr list \<Rightarrow> error + string list" where
  "node_strs h [] = Inr []"
| "node_strs h (a # as) =
     (case node_str h a of
        Inl e \<Rightarrow> Inl e
      | Inr s \<Rightarrow> (case node_strs h as of Inl e \<Rightarrow> Inl e | Inr r \<Rightarrow> Inr (s # r)))"

text \<open>\<^verbatim>\<open>NLPGraph.__str__\<close>: \<^verbatim>\<open>'\n'.join(map(str, self))\<close>.\<close>

definition graph_str :: "heap \<Rightarrow> NLPGraph \<Rightarrow> error + string" where
  "graph_str h g = map_sum id (join NEWLINE) (node_strs h (graph_iter g))"

section \<open>reader.py: the TSV reader\<close>

record TSVReader =
  word_index :: int
  lemma_index :: int
  pos_index :: int
  feats_index :: int
  head_id_index :: int
  deprel_index :: int
  snd_heads_index :: int
  nament_index :: int

text \<open>The constructor's defaults: every column is -1.\<close>

definition default_TSVReader :: TSVReader where
  "default_TSVReader =
     \<lparr>word_index = -1, lemma_index = -1, pos_index = -1, feats_index = -1, head_id_index = -1,
      deprel_index = -1, snd_heads_index = -1, nament_index = -1\<rparr>"

subsection \<open>Splitting\<close>

text \<open>
  The five compiled patterns each match one literal character, so \<^verbatim>\<open>pattern.split(s)\<close> cuts
  \<open>s\<close> at every occurrence of that character and keeps the empty pieces.
\<close>

fun split_acc :: "char \<Rightarrow> string \<Rightarrow> string \<Rightarrow> string list" where
  "split_acc d cur [] = [cur]"
| "split_acc d cur (c # cs) =
     (if c = d then cur # split_acc d [] cs else split_acc d (cur @ [c]) cs)"

definition split_on :: "char \<Rightarrow> string \<Rightarrow> string list" where
  "split_on d s = split_acc d [] s"

text \<open>
  A string is the list of its characters, each a code point below 256. \<^verbatim>\<open>str.strip()\<close>
  removes white space at both ends; these are the code points below 256 for which
  \<^verbatim>\<open>str.isspace\<close> holds.
\<close>

definition isspace :: "char \<Rightarrow> bool" where
  "isspace c = (c \<in> set [CHR 0x09, CHR 0x0A, CHR 0x0B, CHR 0x0C, CHR 0x0D, CHR 0x1C, CHR 0x1D,
                         CHR 0x1E, CHR 0x1F, CHR '' '', CHR 0x85, CHR 0xA0])"

definition strip :: "string \<Rightarrow> string" where
  "strip s = rev (dropWhile isspace (rev (dropWhile isspace s)))"

text \<open>
  Iterating a text file yields its lines. The file is opened in text mode with the default
  \<^verbatim>\<open>newline\<close>, so a line ends at LF, at CR or at CR LF, and each of these endings is
  handed over as a single LF.
\<close>

fun file_lines_acc :: "string \<Rightarrow> string \<Rightarrow> string list" where
  "file_lines_acc cur [] = (if cur = [] then [] else [cur])"
| "file_lines_acc cur [c] =
     (if c = CHR 0x0A \<or> c = CHR 0x0D then [cur @ [CHR 0x0A]] else [cur @ [c]])"
| "file_lines_acc cur (c # d # cs) =
     (if c = CHR 0x0D \<and> d = CHR 0x0A then (cur @ [CHR 0x0A]) # file_lines_acc [] cs
      else if c = CHR 0x0A \<or> c = CHR 0x0D then (cur @ [CHR 0x0A]) # file_lines_acc [] (d # cs)
      else file_lines_acc (cur @ [c]) (d # cs))"

definition file_lines :: "string \<Rightarrow> string list" where
  "file_lines s = file_lines_acc [] s"

subsection \<open>tsv_to_graph\<close>

text \<open>A row is a list of column strings; \<^verbatim>\<open>get_field\<close> and \<^verbatim>\<open>init_node\<close> also test for a row
  that is \<^verbatim>\<open>None\<close>, so a row is optional here.\<close>

type_synonym row = "string list option"

definition get_field :: "row \<Rightarrow> int \<Rightarrow> error + string option" where
  "get_field r index =
     (case r of
        None \<Rightarrow> Inr (Some ROOT_TAG)
      | Some cols \<Rightarrow> if index \<ge> 0 then map_sum id Some (py_get cols index) else Inr None)"

text \<open>The dictionary comprehension \<^verbatim>\<open>{feat[0]: feat[1] for feat in ...}\<close>: a later pair with
  the same key replaces the value, and a piece without \<^verbatim>\<open>=\<close> has no \<^verbatim>\<open>feat[1]\<close>.\<close>

fun feats_dict :: "string list list \<Rightarrow> (string \<times> string) list \<Rightarrow> error + (string \<times> string) list" where
  "feats_dict [] d = Inr d"
| "feats_dict (feat # rest) d =
     (case py_get feat 0 of
        Inl e \<Rightarrow> Inl e
      | Inr k \<Rightarrow>
          (case py_get feat 1 of
             Inl e \<Rightarrow> Inl e
           | Inr v \<Rightarrow> feats_dict rest (AList.update k v d)))"

definition get_feats :: "TSVReader \<Rightarrow> string list \<Rightarrow> error + (string \<times> string) list option" where
  "get_feats cfg cols =
     (if feats_index cfg \<ge> 0
      then (case py_get cols (feats_index cfg) of
              Inl e \<Rightarrow> Inl e
            | Inr f \<Rightarrow>
                if f = BLANK then Inr None
                else map_sum id Some
                       (feats_dict (map (split_on CHR ''='') (split_on CHR ''|'' f)) []))
      else Inr None)"

text \<open>\<^verbatim>\<open>init_node\<close> creates \<^verbatim>\<open>NLPNode()\<close> and then assigns the fields one by one;
  \<^verbatim>\<open>node.feats\<close> receives what \<^verbatim>\<open>get_feats\<close> returns, or \<^verbatim>\<open>{}\<close> for a row that is absent or
  empty.\<close>

definition init_node :: "TSVReader \<Rightarrow> row list \<Rightarrow> nat \<Rightarrow> error + NLPNode" where
  "init_node cfg tsv i =
     (let r = tsv ! i; node = default_NLPNode\<lparr>node_id := int i + 1\<rparr>
      in case get_field r (word_index cfg) of Inl e \<Rightarrow> Inl e | Inr w \<Rightarrow>
        (case get_field r (lemma_index cfg) of Inl e \<Rightarrow> Inl e | Inr l \<Rightarrow>
        (case get_field r (pos_index cfg) of Inl e \<Rightarrow> Inl e | Inr p \<Rightarrow>
        (case get_field r (nament_index cfg) of Inl e \<Rightarrow> Inl e | Inr ne \<Rightarrow>
        (case (case r of None \<Rightarrow> Inr (Some [])
               | Some cols \<Rightarrow> if cols = [] then Inr (Some []) else get_feats cfg cols) of
           Inl e \<Rightarrow> Inl e
         | Inr f \<Rightarrow>
             Inr (node\<lparr>word := w, lemma_str := l, pos := p, nament := ne, feats := f\<rparr>))))))"

text \<open>The list comprehension \<^verbatim>\<open>[init_node(i) for i in range(len(tsv))]\<close>, allocating each
  node as it is made.\<close>

fun init_nodes :: "TSVReader \<Rightarrow> row list \<Rightarrow> nat list \<Rightarrow> heap \<Rightarrow> error + (heap \<times> addr list)" where
  "init_nodes cfg tsv [] h = Inr (h, [])"
| "init_nodes cfg tsv (i # is) h =
     (case init_node cfg tsv i of
        Inl e \<Rightarrow> Inl e
      | Inr n \<Rightarrow>
          (let (h1, a) = alloc h n
           in case init_nodes cfg tsv is h1 of
                Inl e \<Rightarrow> Inl e
              | Inr (h2, as) \<Rightarrow> Inr (h2, a # as)))"

text \<open>
  The loop over \<^verbatim>\<open>enumerate(g)\<close> that resolves heads. Its body reads \<^verbatim>\<open>t = tsv[i]\<close> and then
  evaluates \<^verbatim>\<open>NLPArc(g.nodes[int(t[self.head_id_index])], t[self.deprel_index])\<close>. Python
  looks the callee up before the arguments, and \<^verbatim>\<open>NLPArc\<close> is bound nowhere: reader.py
  defines no such name and its only import, \<^verbatim>\<open>from elit.structure import *\<close>, brings in the
  names of structure.py, which has no \<^verbatim>\<open>NLPArc\<close>. The first iteration therefore raises
  \<^verbatim>\<open>NameError\<close>; with no node to iterate the loop does nothing.
\<close>

fun attach_heads ::
  "TSVReader \<Rightarrow> row list \<Rightarrow> heap \<Rightarrow> NLPGraph \<Rightarrow> (nat \<times> addr) list \<Rightarrow> error + (heap \<times> NLPGraph)" where
  "attach_heads cfg tsv h g [] = Inr (h, g)"
| "attach_heads cfg tsv h g ((i, n) # rest) = Inl NameError"

definition tsv_to_graph :: "TSVReader \<Rightarrow> heap \<Rightarrow> row list \<Rightarrow> error + (heap \<times> NLPGraph)" where
  "tsv_to_graph cfg h tsv =
     (case init_nodes cfg tsv [0..<length tsv] h of
        Inl e \<Rightarrow> Inl e
      | Inr (h1, ns) \<Rightarrow>
          (let (h2, g) = new_NLPGraph h1 (Some ns)
           in if head_id_index cfg \<ge> 0
              then attach_heads cfg tsv h2 g (enumerate 0 (graph_iter g))
              else Inr (h2, g)))"

subsection \<open>next\<close>

text \<open>The loop of \<^verbatim>\<open>next\<close> over the remaining lines of the file: it returns the rows read and
  the lines left.\<close>

fun read_block :: "string list \<Rightarrow> string list list \<Rightarrow> string list list \<times> string list" where
  "read_block [] tsv = (tsv, [])"
| "read_block (line # rest) tsv =
     (let l = strip line
      in if l \<noteq> [] then read_block rest (tsv @ [split_on (CHR 0x09) l])
         else if tsv \<noteq> [] then (tsv, rest)
         else read_block rest tsv)"

definition reader_next ::
  "TSVReader \<Rightarrow> heap \<Rightarrow> string list \<Rightarrow> string list \<times> (error + (heap \<times> NLPGraph) option)" where
  "reader_next cfg h fin =
     (let (tsv, rest) = read_block fin []
      in (rest, if tsv \<noteq> [] then map_sum id Some (tsv_to_graph cfg h (map Some tsv))
                else Inr None))"

section \<open>model.py: the trainable model\<close>

subsection \<open>Label vocabulary\<close>

record NLPModel =
  index_map :: "(string \<times> int) list"
  labels :: "string list"

definition new_NLPModel :: NLPModel where
  "new_NLPModel = \<lparr>index_map = [], labels = []\<rparr>"

definition get_label_index :: "NLPModel \<Rightarrow> string \<Rightarrow> int" where
  "get_label_index m label = (case map_of (index_map m) label of None \<Rightarrow> -1 | Some i \<Rightarrow> i)"

definition get_label :: "NLPModel \<Rightarrow> int \<Rightarrow> error + string" where
  "get_label m index = py_get (labels m) index"

definition add_label :: "NLPModel \<Rightarrow> string \<Rightarrow> NLPModel \<times> int" where
  "add_label m label =
     (let idx = get_label_index m label
      in if idx < 0
         then (let idx' = int (length (labels m))
               in (m\<lparr>index_map := AList.update label idx' (index_map m),
                     labels := labels m @ [label]\<rparr>, idx'))
         else (m, idx))"

definition num_label :: "NLPModel \<Rightarrow> nat" where
  "num_label m = length (labels m)"

subsection \<open>train_instances\<close>

text \<open>
  The abstract feature function \<^verbatim>\<open>x\<close> and the attribute \<^verbatim>\<open>state.gold\<close> are parameters
  \<open>xf\<close> and \<open>gold\<close>: pure functions of a state, as the claim about them assumes. A feature
  matrix is the list of its rows, so \<^verbatim>\<open>np.vstack\<close> of row vectors is the list of them and
  \<^verbatim>\<open>np.vstack\<close> of matrices, like \<^verbatim>\<open>np.hstack\<close> of label vectors, is concatenation.

  \<^verbatim>\<open>instances\<close> builds the list of pairs of its slice and returns \<^verbatim>\<open>zip(*pairs)\<close>, which
  the caller unpacks into \<^verbatim>\<open>xs, ys\<close>. \<^verbatim>\<open>zip()\<close> of no argument yields nothing, so the
  unpacking of an empty slice raises \<^verbatim>\<open>ValueError\<close>; a slice with a pair or more yields
  exactly the two tuples.
\<close>

definition instances :: "('st \<Rightarrow> 'x) \<Rightarrow> ('st \<Rightarrow> string) \<Rightarrow> 'st list \<Rightarrow> nat \<Rightarrow> nat \<Rightarrow> ('x \<times> string) list" where
  "instances xf gold states thread_id batch_size =
     (let bidx = thread_id * batch_size;
          eidx = min ((thread_id + 1) * batch_size) (length states)
      in map (\<lambda>state. (xf state, gold state)) (islice states bidx eidx))"

definition unpack_zip :: "('a \<times> 'b) list \<Rightarrow> error + ('a list \<times> 'b list)" where
  "unpack_zip ps = (if ps = [] then Inl ValueError else Inr (map fst ps, map snd ps))"

text \<open>\<^verbatim>\<open>[self.add_label(y) for y in ys]\<close>, threading the vocabulary.\<close>

fun add_labels :: "NLPModel \<Rightarrow> string list \<Rightarrow> NLPModel \<times> int list" where
  "add_labels m [] = (m, [])"
| "add_labels m (y # ys) =
     (let (m1, i) = add_label m y; (m2, is) = add_labels m1 ys in (m2, i # is))"

text \<open>
  \<^verbatim>\<open>xys\<close> applied to each future in turn, on the calling thread. \<^verbatim>\<open>add_label\<close> changes the
  vocabulary in place, so an exception leaves the labels that the chunks before it added:
  the error carries the vocabulary as it then is.
\<close>

fun xys_all ::
  "NLPModel \<Rightarrow> ('x \<times> string) list list \<Rightarrow>
   (error \<times> NLPModel) + (NLPModel \<times> ('x list \<times> int list) list)" where
  "xys_all m [] = Inr (m, [])"
| "xys_all m (ps # rest) =
     (case unpack_zip ps of
        Inl e \<Rightarrow> Inl (e, m)
      | Inr (xs, ys) \<Rightarrow>
          (let (m1, is) = add_labels m ys
           in case xys_all m1 rest of
                Inl e \<Rightarrow> Inl e
              | Inr (m2, rs) \<Rightarrow> Inr (m2, (xs, is) # rs)))"

text \<open>
  \<^verbatim>\<open>train_instances\<close>. Each worker of the pool computes \<^verbatim>\<open>instances(i, size)\<close>, a pure
  function of the state list, and the driver waits for all of them, so the futures hold
  the same values whatever the schedule. \<^verbatim>\<open>ThreadPoolExecutor\<close> refuses a worker count
  below one with \<^verbatim>\<open>ValueError\<close>. \<^verbatim>\<open>ceil(len(states) / num_threads)\<close> is written in integers.
\<close>

definition train_instances ::
  "('st \<Rightarrow> 'x) \<Rightarrow> ('st \<Rightarrow> string) \<Rightarrow> NLPModel \<Rightarrow> 'st list \<Rightarrow> int \<Rightarrow>
   (error \<times> NLPModel) + (NLPModel \<times> ('x list \<times> int list))" where
  "train_instances xf gold m states num_threads =
     (if num_threads = 1
      then (case unpack_zip (instances xf gold states 0 (length states)) of
              Inl e \<Rightarrow> Inl (e, m)
            | Inr (xs, ys) \<Rightarrow> (let (m1, is) = add_labels m ys in Inr (m1, (xs, is))))
      else if num_threads \<le> 0 then Inl (ValueError, m)
      else (let k = nat num_threads;
                size = (length states + k - 1) div k;
                futures = map (\<lambda>i. instances xf gold states i size) [0..<k]
            in case xys_all m futures of
                 Inl e \<Rightarrow> Inl e
               | Inr (m1, rs) \<Rightarrow> Inr (m1, (concat (map fst rs), concat (map snd rs)))))"

subsection \<open>evaluate\<close>

text \<open>
  The processing state (\<^verbatim>\<open>NLPState\<close>) and the numeric module behind \<^verbatim>\<open>bind\<close> and
  \<^verbatim>\<open>predict\<close> are not among the sources; \<^verbatim>\<open>evaluate\<close> is generic in them, and so is this
  record of the operations it calls. States are mutable objects: they live in a store of
  their own and the list handed to \<^verbatim>\<open>evaluate\<close> holds addresses, so the same state may occur
  twice. \<open>predict_fn\<close> maps the stacked feature vectors of a round to one score vector per
  row; scores are of any linearly ordered type.
\<close>

record ('st, 'x, 'y, 'r) state_ops =
  x_fn :: "'st \<Rightarrow> 'x"
  predict_fn :: "'x list \<Rightarrow> 'y list list"
  reset_fn :: "'st \<Rightarrow> 'st"
  process_fn :: "'st \<Rightarrow> string \<Rightarrow> 'y list \<Rightarrow> 'st"
  terminate_fn :: "'st \<Rightarrow> bool"
  eval_fn :: "'st \<Rightarrow> int \<times> int \<Rightarrow> (int \<times> int) \<times> 'r"

text \<open>\<^verbatim>\<open>np.argmax\<close>: the first index of the greatest entry; an empty vector raises
  \<^verbatim>\<open>ValueError\<close>.\<close>

fun argmax_from :: "'y::linorder list \<Rightarrow> nat \<Rightarrow> nat \<Rightarrow> 'y \<Rightarrow> nat" where
  "argmax_from [] i best v = best"
| "argmax_from (y # ys) i best v =
     (if v < y then argmax_from ys (Suc i) i y else argmax_from ys (Suc i) best v)"

definition argmax :: "'y::linorder list \<Rightarrow> error + nat" where
  "argmax ys = (case ys of [] \<Rightarrow> Inl ValueError | y # r \<Rightarrow> Inr (argmax_from r 1 0 y))"

text \<open>The inner loop \<^verbatim>\<open>for state, yhats in zip(states, predictions)\<close>.\<close>

fun process_all ::
  "('st, 'x, 'y::linorder, 'r) state_ops \<Rightarrow> NLPModel \<Rightarrow> 'st list \<Rightarrow> (addr \<times> 'y list) list \<Rightarrow>
   error + 'st list" where
  "process_all ops m S [] = Inr S"
| "process_all ops m S ((a, yhats) # rest) =
     (case argmax (if length yhats = num_label m then yhats else take (num_label m) yhats) of
        Inl e \<Rightarrow> Inl e
      | Inr yh \<Rightarrow>
          (case get_label m (int yh) of
             Inl e \<Rightarrow> Inl e
           | Inr l \<Rightarrow> process_all ops m (S[a := process_fn ops (S ! a) l yhats]) rest))"

text \<open>
  The loop \<^verbatim>\<open>while states:\<close>. It has no bound of its own, so it is run on fuel: \<open>None\<close> means
  that the fuel ran out with states still active.
\<close>

fun advance ::
  "nat \<Rightarrow> ('st, 'x, 'y::linorder, 'r) state_ops \<Rightarrow> NLPModel \<Rightarrow> 'st list \<Rightarrow> addr list \<Rightarrow>
   (error + 'st list) option" where
  "advance fuel ops m S [] = Some (Inr S)"
| "advance 0 ops m S (a # as) = None"
| "advance (Suc fuel) ops m S (a # as) =
     (let states = a # as;
          xs = map (\<lambda>s. x_fn ops (S ! s)) states;
          predictions = predict_fn ops xs
      in case process_all ops m S (zip states predictions) of
           Inl e \<Rightarrow> Some (Inl e)
         | Inr S1 \<Rightarrow> advance fuel ops m S1 (filter (\<lambda>s. \<not> terminate_fn ops (S1 ! s)) states))"

text \<open>\<^verbatim>\<open>for state in states: state.reset()\<close>.\<close>

fun reset_all :: "('st, 'x, 'y, 'r) state_ops \<Rightarrow> 'st list \<Rightarrow> addr list \<Rightarrow> 'st list" where
  "reset_all ops S [] = S"
| "reset_all ops S (a # as) = reset_all ops (S[a := reset_fn ops (S ! a)]) as"

text \<open>\<^verbatim>\<open>for state in backup: acc = state.eval(stats)\<close>, where \<^verbatim>\<open>eval\<close> updates the array
  \<^verbatim>\<open>stats\<close> in place.\<close>

fun eval_loop ::
  "('st, 'x, 'y, 'r) state_ops \<Rightarrow> 'st list \<Rightarrow> addr list \<Rightarrow> int \<times> int \<Rightarrow> 'r \<Rightarrow> 'r" where
  "eval_loop ops S [] stats acc = acc"
| "eval_loop ops S (a # as) stats acc =
     (let (stats1, acc1) = eval_fn ops (S ! a) stats in eval_loop ops S as stats1 acc1)"

definition evaluate ::
  "nat \<Rightarrow> ('st, 'x, 'y::linorder, 'r::zero) state_ops \<Rightarrow> NLPModel \<Rightarrow> 'st list \<Rightarrow> addr list \<Rightarrow>
   (error + ('st list \<times> 'r)) option" where
  "evaluate fuel ops m S states =
     (let S0 = reset_all ops S states; backup = states
      in case advance fuel ops m S0 states of
           None \<Rightarrow> None
         | Some (Inl e) \<Rightarrow> Some (Inl e)
         | Some (Inr S1) \<Rightarrow> Some (Inr (S1, eval_loop ops S1 backup (0, 0) 0)))"

text \<open>
  Modelled from the spec: \<^verbatim>\<open>NLPState.eval\<close> is not among the source files. The spec
  (section 3) has it accumulate the state's final correctness into the 2-element running
  total \<^verbatim>\<open>[correct, total]\<close> and return the cumulative ratio so far. \<open>outcome\<close> gives the
  pair a state contributes and \<open>ratio\<close> the quotient of a total.
\<close>

definition state_eval ::
  "('st \<Rightarrow> int \<times> int) \<Rightarrow> (int \<times> int \<Rightarrow> 'r) \<Rightarrow> 'st \<Rightarrow> int \<times> int \<Rightarrow> (int \<times> int) \<times> 'r" where
  "state_eval outcome ratio s stats =
     (let stats1 = (fst stats + fst (outcome s), snd stats + snd (outcome s))
      in (stats1, ratio stats1))"

section \<open>Concrete stores used below\<close>

text \<open>A node as \<^verbatim>\<open>NLPNode(node_id=i)\<close> makes it.\<close>

definition fresh_node :: "int \<Rightarrow> NLPNode" where
  "fresh_node i = new_NLPNode i None None None None None"

text \<open>The store a caller sees after \<^verbatim>\<open>set_parent\<close>, whether it returned or raised.\<close>

definition store_after :: "(error \<times> heap) + (heap \<times> addr option) \<Rightarrow> heap" where
  "store_after r = (case r of Inl (e, h) \<Rightarrow> h | Inr (h, p) \<Rightarrow> h)"

text \<open>\<^verbatim>\<open>for c in cs: c.set_parent(p, label)\<close>.\<close>

fun attach_each :: "heap \<Rightarrow> addr list \<Rightarrow> addr \<Rightarrow> string option \<Rightarrow> heap" where
  "attach_each h [] p label = h"
| "attach_each h (c # cs) p label =
     attach_each (store_after (set_parent h c (Some p) label)) cs p label"

text \<open>
  Five nodes with ids 1 to 5 at the addresses 1 to 5, attached in the order 4, 2, 5, 1, 3
  to the node at address 0, whose id is \<open>k\<close>.
\<close>

definition chain :: "int \<Rightarrow> heap" where
  "chain k =
     attach_each
       [fresh_node k, fresh_node 1, fresh_node 2, fresh_node 3, fresh_node 4, fresh_node 5]
       [4, 2, 5, 1, 3] 0 (Some ''dep'')"


text \<open>
  The nodes with ids 1, 2, 4 and 5 attached to the node with id 3 (each node at the address
  of its id; address 0 holds a node that takes no part).
\<close>

definition star :: heap where
  "star =
     attach_each
       [fresh_node 0, fresh_node 1, fresh_node 2, fresh_node 3, fresh_node 4, fresh_node 5]
       [4, 2, 5, 1] 3 (Some ''dep'')"



definition two_labels :: NLPModel where
  "two_labels = fst (add_label (fst (add_label new_NLPModel ''A'')) ''B'')"

text \<open>Nodes with ids 1 and 2 at the addresses 1 and 2, attached to the node at address 0.\<close>

definition siblings :: heap where
  "siblings = attach_each [fresh_node 0, fresh_node 1, fresh_node 2] [1, 2] 0 (Some ''dep'')"

text \<open>
  The sibling queries as the spec words them: the child-side computation, carried out over
  \<^verbatim>\<open>self.parent.children\<close>. \<open>spec_rightmost_sibling\<close> takes the element \<open>order\<close> places from
  the right end of the parent's children if its id is greater than the node's;
  \<open>spec_right_nearest_sibling\<close> indexes from the rightmost insertion point, as
  \<^verbatim>\<open>get_right_nearest_child\<close> does.
\<close>

definition spec_rightmost_sibling :: "heap \<Rightarrow> addr \<Rightarrow> int \<Rightarrow> addr option" where
  "spec_rightmost_sibling h self order =
     (case parent (h ! self) of
        None \<Rightarrow> None
      | Some p \<Rightarrow>
          (let ps = children (h ! p); idx = int (length ps) - 1 - order
           in if in_range idx ps \<and> node_id (h ! self) < node_id (h ! (ps ! nat idx))
              then Some (ps ! nat idx) else None))"

definition spec_right_nearest_sibling :: "heap \<Rightarrow> addr \<Rightarrow> int \<Rightarrow> addr option" where
  "spec_right_nearest_sibling h self order =
     (case parent (h ! self) of
        None \<Rightarrow> None
      | Some p \<Rightarrow>
          (let ps = children (h ! p); idx = int (bisect_right h ps self) + order
           in if in_range idx ps then Some (ps ! nat idx) else None))"

text \<open>
  Three detached nodes A, B, C at the addresses 0, 1, 2; then \<^verbatim>\<open>B.set_parent(C)\<close> with no
  label; then \<^verbatim>\<open>B.set_parent(A, "lbl")\<close>.
\<close>

definition three_nodes :: heap where
  "three_nodes = [fresh_node 1, fresh_node 2, fresh_node 3]"

definition unlabelled :: heap where
  "unlabelled = store_after (set_parent three_nodes 1 (Some 2) None)"

definition after_raise :: heap where
  "after_raise = store_after (set_parent unlabelled 1 (Some 0) (Some ''lbl''))"

text \<open>A reader with a word and a features column, and a row whose features column is blank.\<close>

definition feats_reader :: TSVReader where
  "feats_reader = default_TSVReader\<lparr>word_index := 1, feats_index := 4\<rparr>"

definition blank_row :: row where
  "blank_row = Some [''1'', ''a'', ''_'', ''_'', ''_'', ''_'', ''_'', ''_'', ''_'']"

definition blank_heap :: heap where
  "blank_heap = [default_NLPNode\<lparr>node_id := 1, word := Some ''a'', feats := None\<rparr>, root]"

text \<open>
  A sentence of three tokens: \<open>a\<close> and \<open>c\<close> depend on \<open>b\<close>, \<open>b\<close> on the root, and \<open>c\<close> has \<open>a\<close> as
  a secondary head. The tokens are at the addresses 0, 1, 2 and the root at 3. The reader
  takes its columns in the order in which \<^verbatim>\<open>__str__\<close> writes them.
\<close>

definition conll_reader :: TSVReader where
  "conll_reader =
     \<lparr>word_index = 1, lemma_index = 2, pos_index = 3, feats_index = 4, head_id_index = 5,
      deprel_index = 6, snd_heads_index = 7, nament_index = 8\<rparr>"

definition sentence_nodes :: heap where
  "sentence_nodes =
     [new_NLPNode 1 (Some ''a'') None None None None,
      new_NLPNode 2 (Some ''b'') None None None None,
      new_NLPNode 3 (Some ''c'') None None None None]"

definition sentence_graph :: NLPGraph where
  "sentence_graph = snd (new_NLPGraph sentence_nodes (Some [0, 1, 2]))"

definition sentence :: heap where
  "sentence =
     (let h0 = fst (new_NLPGraph sentence_nodes (Some [0, 1, 2]));
          h1 = store_after (set_parent h0 0 (Some 1) (Some ''x''));
          h2 = store_after (set_parent h1 1 (Some 3) (Some ''r''));
          h3 = store_after (set_parent h2 2 (Some 1) (Some ''y''))
      in add_secondary_parent h3 2 0 (Some ''z''))"

definition sentence_text :: string where
  "sentence_text =
     join NEWLINE
       [join TAB [''1'', ''a'', ''_'', ''_'', ''_'', ''2'', ''x'', ''_'', ''_''],
        join TAB [''2'', ''b'', ''_'', ''_'', ''_'', ''0'', ''r'', ''_'', ''_''],
        join TAB [''3'', ''c'', ''_'', ''_'', ''_'', ''2'', ''y'', ''1:z'', ''_'']]"

text \<open>
  \<open>processed ops s t\<close>: the state \<open>t\<close> comes from \<open>s\<close> by calls of \<^verbatim>\<open>process\<close> alone, with
  no \<^verbatim>\<open>reset\<close> between them.
\<close>

inductive processed :: "('st, 'x, 'y, 'r) state_ops \<Rightarrow> 'st \<Rightarrow> 'st \<Rightarrow> bool" for ops where
  processed_refl: "processed ops s s"
| processed_step: "processed ops s t \<Longrightarrow> processed ops s (process_fn ops t l ys)"

text \<open>
  What makes the loop of \<^verbatim>\<open>evaluate\<close> end without raising: the vocabulary is not empty,
  the module returns one non-empty score vector per row, and every \<^verbatim>\<open>process\<close> call either
  terminates the state or lowers a measure \<open>\<mu>\<close> of it.
\<close>

definition well_behaved :: "('st, 'x, 'y, 'r) state_ops \<Rightarrow> NLPModel \<Rightarrow> ('st \<Rightarrow> nat) \<Rightarrow> bool" where
  "well_behaved ops m \<mu> \<longleftrightarrow>
     0 < num_label m \<and>
     (\<forall>xs. length (predict_fn ops xs) = length xs \<and> [] \<notin> set (predict_fn ops xs)) \<and>
     (\<forall>s l ys. terminate_fn ops (process_fn ops s l ys) \<or> \<mu> (process_fn ops s l ys) < \<mu> s)"

text \<open>
  States that count down: \<^verbatim>\<open>reset\<close> sets 2, \<^verbatim>\<open>process\<close> subtracts one, 0 is terminal, and
  every state scores 1 of 2; the ratio is taken in per cent.
\<close>

definition countdown :: "(nat, nat, nat, int) state_ops" where
  "countdown =
     \<lparr>x_fn = (\<lambda>s. s), predict_fn = map (\<lambda>x. [0, 1]), reset_fn = (\<lambda>s. 2),
      process_fn = (\<lambda>s l ys. s - 1), terminate_fn = (\<lambda>s. s = 0),
      eval_fn = state_eval (\<lambda>s. (1, 2)) (\<lambda>(c, t). c * 100 div t)\<rparr>"

text \<open>
  The invariant of the primary links: the children of every node are distinct, they are
  exactly the nodes whose parent is that node, and they are sorted by \<^verbatim>\<open>node_id\<close>.
\<close>

definition children_inv :: "heap \<Rightarrow> bool" where
  "children_inv h \<longleftrightarrow>
     (\<forall>p\<in>set [0..<length h].
        distinct (children (h ! p)) \<and>
        set (children (h ! p)) = set (filter (\<lambda>c. parent (h ! c) = Some p) [0..<length h]) \<and>
        sorted (map (\<lambda>c. node_id (h ! c)) (children (h ! p))))"

section \<open>Properties\<close>

lemmas node_defs =
  fresh_node_def new_NLPNode_def store_after_def set_parent_def detach_def attach_def
  set_dependency_label_def truthy_def insort_right_def bisect_right_def bisect_left_def
  node_lt_def node_gt_def bisect_remove_def in_range_def

subsection \<open>Updates of one field leave the others\<close>

lemma upd_nth_cases: "(S[a := v]) ! b = (if a = b \<and> a < length S then v else S ! b)"
  by (cases "a < length S") (auto simp: list_update_beyond)

lemma nth_upd_children:
  "deprels (h[p := (h ! p)\<lparr>children := c\<rparr>] ! a) = deprels (h ! a)"
  "parent (h[p := (h ! p)\<lparr>children := c\<rparr>] ! a) = parent (h ! a)"
  "node_id (h[p := (h ! p)\<lparr>children := c\<rparr>] ! a) = node_id (h ! a)"
proof -
  show "deprels (h[p := (h ! p)\<lparr>children := c\<rparr>] ! a) = deprels (h ! a)"
    by (cases "p < length h"; cases "a = p"; simp add: list_update_beyond)
  show "parent (h[p := (h ! p)\<lparr>children := c\<rparr>] ! a) = parent (h ! a)"
    by (cases "p < length h"; cases "a = p"; simp add: list_update_beyond)
  show "node_id (h[p := (h ! p)\<lparr>children := c\<rparr>] ! a) = node_id (h ! a)"
    by (cases "p < length h"; cases "a = p"; simp add: list_update_beyond)
qed

subsection \<open>When set_parent raises\<close>



lemma detach_Inr_self:
  assumes "detach h self = Inr h1" and "self < length h"
  shows "parent (h1 ! self) = parent (h ! self)"
    and "deprels (h1 ! self) =
           (case parent (h ! self) of None \<Rightarrow> deprels (h ! self)
            | Some p \<Rightarrow> AList.delete p (deprels (h ! self)))"
    and "length h1 = length h"
  using assms
  by (auto simp: detach_def Let_def nth_upd_children split: option.splits if_splits)

lemma attach_self:
  assumes "self < length h"
  shows "parent (attach h self node label ! self) = node"
    and "deprels (attach h self node label ! self) =
           (case node of None \<Rightarrow> deprels (h ! self)
            | Some n \<Rightarrow> if truthy label then AList.update n (the label) (deprels (h ! self))
                        else deprels (h ! self))"
  using assms
  by (auto simp: attach_def set_dependency_label_def Let_def nth_upd_children
      split: option.splits)





subsection \<open>The graph and its root\<close>

text \<open>
  C8. A graph built from a list of N nodes reports length N, holds at index 0 a node equal
  to the root (id 0, every textual field the root marker), and iterates over exactly the
  given nodes in their order.
\<close>

theorem graph_root_invariant:
  "case new_NLPGraph h (Some ns) of (h', g) \<Rightarrow>
     graph_len g = int (length ns) \<and> h' ! (nodes g ! 0) = root \<and> graph_iter g = ns \<and>
     node_id root = 0 \<and> word root = Some ROOT_TAG \<and> lemma_str root = Some ROOT_TAG \<and>
     pos root = Some ROOT_TAG \<and> nament root = Some ROOT_TAG"
  by (simp add: new_NLPGraph_def alloc_def graph_len_def graph_iter_def islice_def root_def
      new_NLPNode_def)

subsection \<open>Positional queries\<close>

text \<open>
  C6. Five siblings with ids 1 to 5 are attached to a common parent P whose own id is \<open>k\<close>.
  P's children are the five nodes in id order, and P's leftmost child is the node with id 1
  exactly when \<open>k > 1\<close>. The nearest-child queries answer for the node they are called on:
  called on P when P's id is 3, they return the children with ids 2 and 4; called on the
  sibling with id 3, which has no children, they return nothing, whatever \<open>k\<close> is. When the
  node with id 3 is itself the parent of the nodes with ids 1, 2, 4 and 5, they return the
  nodes with ids 2 and 4.
\<close>

theorem chain_positional_queries:
  "children (chain k ! 0) = [1, 2, 3, 4, 5] \<and>
   map (\<lambda>a. node_id (chain k ! a)) [1, 2, 3, 4, 5] = [1, 2, 3, 4, 5] \<and>
   (get_leftmost_child (chain k) 0 0 = Some 1) = (1 < k) \<and>
   get_left_nearest_child (chain 3) 0 0 = Some 2 \<and>
   get_right_nearest_child (chain 3) 0 0 = Some 4 \<and>
   children (chain k ! 3) = [] \<and>
   get_left_nearest_child (chain k) 3 0 = None \<and>
   get_right_nearest_child (chain k) 3 0 = None \<and>
   children (star ! 3) = [1, 2, 4, 5] \<and>
   get_left_nearest_child star 3 0 = Some 2 \<and>
   get_right_nearest_child star 3 0 = Some 4"
proof -
  have "children (chain k ! 0) = [1, 2, 3, 4, 5]"
    by (simp add: chain_def node_defs)
  moreover have "map (\<lambda>a. node_id (chain k ! a)) [1, 2, 3, 4, 5] = [1, 2, 3, 4, 5]"
    by (simp add: chain_def node_defs)
  moreover have "(get_leftmost_child (chain k) 0 0 = Some 1) = (1 < k)"
    by (simp add: get_leftmost_child_def chain_def node_defs)
  moreover have "get_left_nearest_child (chain 3) 0 0 = Some 2"
    by (simp add: get_left_nearest_child_def chain_def node_defs)
  moreover have "get_right_nearest_child (chain 3) 0 0 = Some 4"
    by (simp add: get_right_nearest_child_def chain_def node_defs)
  moreover have c3: "children (chain k ! 3) = []"
    by (simp add: chain_def node_defs)
  moreover have "get_left_nearest_child (chain k) 3 0 = None"
    by (simp add: get_left_nearest_child_def c3 in_range_def bisect_left_def)
  moreover have "get_right_nearest_child (chain k) 3 0 = None"
    by (simp add: get_right_nearest_child_def c3 in_range_def bisect_right_def)
  moreover have "children (star ! 3) = [1, 2, 4, 5]"
    by (simp add: star_def node_defs)
  moreover have "get_left_nearest_child star 3 0 = Some 2"
    by (simp add: get_left_nearest_child_def star_def node_defs)
  moreover have "get_right_nearest_child star 3 0 = Some 4"
    by (simp add: get_right_nearest_child_def star_def node_defs)
  ultimately show ?thesis by blast
qed

text \<open>
  The claim as worded calls the two queries on the chain's node with id 3; there, with P
  at id 0, neither returns the node with id 2 or 4.
\<close>

theorem chain_sibling_nearest_child_counterexample:
  "node_id (chain 0 ! 3) = 3 \<and> parent (chain 0 ! 3) = Some 0 \<and>
   get_left_nearest_child (chain 0) 3 0 \<noteq> Some 2 \<and>
   get_right_nearest_child (chain 0) 3 0 \<noteq> Some 4"
  by (simp add: get_left_nearest_child_def get_right_nearest_child_def chain_def node_defs)

subsection \<open>The label vocabulary\<close>

text \<open>
  C9. For a model with at least one label and a label \<open>u\<close> it does not know,
  \<^verbatim>\<open>get_label_index(u)\<close> is -1, and \<^verbatim>\<open>get_label\<close> of that index does not fail but returns
  the last label of the list; after \<^verbatim>\<open>add_label(u)\<close> this last label is \<open>u\<close>, the one added
  most recently.
\<close>

theorem get_label_unknown_aliases_last:
  assumes "labels m \<noteq> []" and "map_of (index_map m) u = None"
  shows "get_label_index m u = -1 \<and>
         get_label m (get_label_index m u) = Inr (last (labels m)) \<and>
         get_label (fst (add_label m u)) (-1) = Inr u"
proof -
  have "nat (int (length (labels m)) - 1) = length (labels m) - 1" by arith
  moreover have "Suc 0 \<le> length (labels m)" using assms(1) by (cases "labels m") simp_all
  ultimately show ?thesis using assms
    by (simp add: get_label_index_def get_label_def py_get_def last_conv_nth add_label_def
        Let_def)
qed

theorem get_label_unknown_aliases_last_witness:
  "labels two_labels \<noteq> [] \<and> map_of (index_map two_labels) ''C'' = None \<and>
   get_label_index two_labels ''C'' = -1 \<and> get_label two_labels (-1) = Inr ''B''"
  using get_label_unknown_aliases_last [of two_labels "''C''"]
  by (simp add: two_labels_def add_label_def get_label_index_def new_NLPModel_def Let_def)

subsection \<open>Sibling queries\<close>

text \<open>
  C5. B (id 1) and C (id 2) are the children of one parent, and B has no children of its
  own. Counted over the parent's children, the rightmost sibling of B is C and so is its
  right-nearest sibling. \<^verbatim>\<open>get_rightmost_sibling\<close> takes its index from B's own, empty
  children and returns nothing; \<^verbatim>\<open>get_right_nearest_sibling\<close> adds one to the insertion
  point, steps over C and returns nothing.
\<close>

theorem rightmost_sibling_uses_own_children:
  "children (siblings ! 0) = [1, 2] \<and> parent (siblings ! 1) = Some 0 \<and>
   children (siblings ! 1) = [] \<and>
   spec_rightmost_sibling siblings 1 0 = Some 2 \<and> get_rightmost_sibling siblings 1 0 = None \<and>
   spec_right_nearest_sibling siblings 1 0 = Some 2 \<and>
   get_right_nearest_sibling siblings 1 0 = None"
  by (simp add: siblings_def node_defs spec_rightmost_sibling_def get_rightmost_sibling_def
      spec_right_nearest_sibling_def get_right_nearest_sibling_def)

subsection \<open>Parent and children after set_parent\<close>

text \<open>
  A call of \<^verbatim>\<open>set_parent\<close> that returns keeps the invariant, makes the node a child of its new
  parent and of no other node, and stores the label it was given.
\<close>

lemma insort_right_Nil: "insort_right h [] x = [x]"
  by (simp add: insort_right_def bisect_right_def)

lemma insort_right_Cons:
  "insort_right h (y # ys) x = (if node_lt h x y then x # y # ys else y # insort_right h ys x)"
  by (simp add: insort_right_def bisect_right_def Let_def)

lemma set_insort_right: "set (insort_right h xs x) = insert x (set xs)"
  by (induction xs) (auto simp: insort_right_Nil insort_right_Cons)

lemma distinct_insort_right:
  "distinct xs \<Longrightarrow> x \<notin> set xs \<Longrightarrow> distinct (insort_right h xs x)"
  by (induction xs) (auto simp: insort_right_Nil insort_right_Cons set_insort_right)

lemma sorted_insort_right:
  "sorted (map (\<lambda>c. node_id (h ! c)) xs) \<Longrightarrow>
   sorted (map (\<lambda>c. node_id (h ! c)) (insort_right h xs x))"
  by (induction xs)
     (auto simp: insort_right_Nil insort_right_Cons set_insort_right node_lt_def)

lemma insort_right_node_ids:
  "(\<And>a. node_id (h1 ! a) = node_id (h ! a)) \<Longrightarrow> insort_right h1 xs x = insort_right h xs x"
  by (simp add: insort_right_def bisect_right_def node_lt_def)

lemma sorted_remove1_map: "sorted (map f xs) \<Longrightarrow> sorted (map f (remove1 x xs))"
  by (induction xs) (auto dest: notin_set_remove1)

lemma detach_fields:
  assumes "detach h self = Inr h0"
  shows "length h0 = length h"
    and "node_id (h0 ! a) = node_id (h ! a)"
    and "parent (h0 ! a) = parent (h ! a)"
    and "children (h0 ! a) =
           (if parent (h ! self) = Some a \<and> a < length h then remove1 self (children (h ! a))
            else children (h ! a))"
  using assms
  by (auto simp: detach_def Let_def upd_nth_cases bisect_remove_def
      split: option.splits if_splits)

lemma attach_fields:
  assumes "self < length h0"
  shows "length (attach h0 self node label) = length h0"
    and "node_id (attach h0 self node label ! a) = node_id (h0 ! a)"
    and "parent (attach h0 self node label ! a) = (if a = self then node else parent (h0 ! a))"
    and "children (attach h0 self node label ! a) =
           (if node = Some a \<and> a < length h0 then insort_right h0 (children (h0 ! a)) self
            else children (h0 ! a))"
proof -
  have ids: "insort_right (h0[b := (h0 ! b)\<lparr>parent := v\<rparr>]) xs x = insort_right h0 xs x"
    for xs x b v
    by (rule insort_right_node_ids) (simp add: upd_nth_cases)
  show "length (attach h0 self node label) = length h0"
    by (simp add: attach_def set_dependency_label_def Let_def split: option.splits)
  show "node_id (attach h0 self node label ! a) = node_id (h0 ! a)"
    by (simp add: attach_def set_dependency_label_def Let_def upd_nth_cases split: option.splits)
  show "parent (attach h0 self node label ! a) = (if a = self then node else parent (h0 ! a))"
    using assms
    by (simp add: attach_def set_dependency_label_def Let_def upd_nth_cases split: option.splits)
  show "children (attach h0 self node label ! a) =
           (if node = Some a \<and> a < length h0 then insort_right h0 (children (h0 ! a)) self
            else children (h0 ! a))"
    using assms
    by (auto simp: attach_def set_dependency_label_def Let_def upd_nth_cases ids
        split: option.splits)
qed


lemma filter_upt_set: "set (filter P [0..<n]) = {c. c < n \<and> P c}"
  by auto

lemma set_parent_preserves_children_inv:
  assumes inv: "children_inv h" and self: "self < length h"
    and sp: "set_parent h self node label = Inr (h', prev)"
  shows "children_inv h'"
proof -
  from sp obtain h0 where d: "detach h self = Inr h0" and h': "h' = attach h0 self node label"
    and prev: "prev = parent (h ! self)"
    by (auto simp: set_parent_def Let_def split: sum.splits)
  note df = detach_fields [OF d]
  from self df(1) have self0: "self < length h0" by simp
  note af = attach_fields [OF self0, of node label]
  have len: "length h' = length h" using af(1) df(1) h' by simp
  have ids: "node_id (h' ! a) = node_id (h ! a)" for a using af(2) df(2) h' by simp
  have ids0: "(\<lambda>c. node_id (h0 ! c)) = (\<lambda>c. node_id (h ! c))" using df(2) by auto
  have par: "parent (h' ! a) = (if a = self then node else parent (h ! a))" for a
    using af(3) df(3) h' by simp
  show ?thesis
    unfolding children_inv_def
  proof
    fix p assume "p \<in> set [0..<length h']"
    then have p: "p < length h" using len by simp
    let ?old = "children (h ! p)"
    let ?mid = "children (h0 ! p)"
    let ?new = "children (h' ! p)"
    from inv p have dist: "distinct ?old"
      and mem: "set ?old = {c. c < length h \<and> parent (h ! c) = Some p}"
      and srt: "sorted (map (\<lambda>c. node_id (h ! c)) ?old)"
      by (auto simp: children_inv_def)
    have cs0: "?mid = (if parent (h ! self) = Some p then remove1 self ?old else ?old)"
      using df(4) [of p] p by simp
    have cs': "?new = (if node = Some p then insort_right h0 ?mid self else ?mid)"
      using af(4) [of p] p df(1) h' by simp
    have dist0: "distinct ?mid" using dist cs0 by simp
    have set0: "set ?mid = set ?old - {self}"
    proof (cases "parent (h ! self) = Some p")
      case True
      then show ?thesis using cs0 dist by simp
    next
      case False
      then have "self \<notin> set ?old" using mem by simp
      then show ?thesis using cs0 False by simp
    qed
    have srt0: "sorted (map (\<lambda>c. node_id (h0 ! c)) ?mid)"
      unfolding ids0 using srt cs0 by (simp add: sorted_remove1_map)
    have notin: "self \<notin> set ?mid" using set0 by simp
    have "distinct ?new"
      using cs' dist0 notin by (simp add: distinct_insort_right)
    moreover have "set ?new = {c. c < length h' \<and> parent (h' ! c) = Some p}"
    proof -
      have "set ?new = (set ?old - {self}) \<union> (if node = Some p then {self} else {})"
        using cs' set0 by (simp add: set_insort_right)
      also have "\<dots> = {c. c < length h' \<and> parent (h' ! c) = Some p}"
        using mem self by (auto simp: par len)
      finally show ?thesis .
    qed
    moreover have "sorted (map (\<lambda>c. node_id (h' ! c)) ?new)"
    proof -
      have "sorted (map (\<lambda>c. node_id (h0 ! c)) ?new)"
        using cs' srt0 by (simp add: sorted_insort_right)
      moreover have "(\<lambda>c. node_id (h' ! c)) = (\<lambda>c. node_id (h0 ! c))"
        using ids df(2) by auto
      ultimately show ?thesis by simp
    qed
    ultimately show "distinct ?new \<and>
        set ?new = set (filter (\<lambda>c. parent (h' ! c) = Some p) [0..<length h']) \<and>
        sorted (map (\<lambda>c. node_id (h' ! c)) ?new)"
      by (simp only: filter_upt_set)
  qed
qed

lemma set_parent_returns:
  assumes self: "self < length h" and sp: "set_parent h self node label = Inr (h', prev)"
  shows "prev = parent (h ! self)" and "parent (h' ! self) = node"
    and "node \<noteq> None \<Longrightarrow> truthy label \<Longrightarrow> get_dependency_label h' self None = label"
proof -
  from sp obtain h0 where d: "detach h self = Inr h0" and h': "h' = attach h0 self node label"
    and prev: "prev = parent (h ! self)"
    by (auto simp: set_parent_def Let_def split: sum.splits)
  from detach_Inr_self(3) [OF d self] self have self0: "self < length h0" by simp
  show "prev = parent (h ! self)" by (rule prev)
  show p: "parent (h' ! self) = node" unfolding h' by (rule attach_self(1) [OF self0])
  show "get_dependency_label h' self None = label" if "node \<noteq> None" "truthy label"
    using that p attach_self(2) [OF self0, of node label]
    by (auto simp: get_dependency_label_def h' update_conv' truthy_def split: option.splits)
qed

text \<open>
  C2. B is attached to C without a label, which returns. \<^verbatim>\<open>B.set_parent(A, "lbl")\<close> then
  raises \<^verbatim>\<open>KeyError\<close>, after B has been removed from C's children and before B's parent is
  changed: A's children do not contain B, B's parent is still C, and C's children no longer
  contain B.
\<close>

theorem set_parent_after_unlabelled_attach_raises:
  "set_parent three_nodes 1 (Some 2) None = Inr (unlabelled, None) \<and>
   children (unlabelled ! 2) = [1] \<and> parent (unlabelled ! 1) = Some 2 \<and>
   set_parent unlabelled 1 (Some 0) (Some ''lbl'') = Inl (KeyError, after_raise) \<and>
   children (after_raise ! 0) = [] \<and> parent (after_raise ! 1) = Some 2 \<and>
   children (after_raise ! 2) = []"
  by (simp add: after_raise_def unlabelled_def three_nodes_def node_defs)

subsection \<open>Blank fields\<close>

lemmas reader_defs =
  tsv_to_graph_def init_node_def get_field_def get_feats_def py_get_def default_TSVReader_def
  default_NLPNode_def new_NLPNode_def new_NLPGraph_def alloc_def root_def BLANK_def
  ROOT_TAG_def graph_iter_def islice_def

lemmas str_defs =
  node_fields_def or_blank_def truthy_def str_int_def str_nat.simps digit_char_def
  get_dependency_label_def BLANK_def

text \<open>
  C7. A node with no features, no parent and no secondary parents renders the features,
  head-id, dependency-label and secondary-heads fields as \<^verbatim>\<open>_\<close>. Parsing a row whose
  features column holds \<^verbatim>\<open>_\<close> gives a node whose \<^verbatim>\<open>feats\<close> is \<^verbatim>\<open>None\<close>: it has no \<^verbatim>\<open>_\<close>
  entry, and it is not the empty dictionary either. That node renders the same way.
\<close>

theorem blank_feats_parsed_as_None:
  "node_fields [fresh_node 7] 0 = Inr [''7'', ''_'', ''_'', ''_'', ''_'', ''_'', ''_'', ''_'', ''_''] \<and>
   tsv_to_graph feats_reader [] [blank_row] = Inr (blank_heap, \<lparr>nodes = [1, 0]\<rparr>) \<and>
   feats (blank_heap ! 0) = None \<and> feats (blank_heap ! 0) \<noteq> Some [] \<and>
   feats (fresh_node 7) = Some [] \<and>
   node_fields blank_heap 0 = Inr [''1'', ''a'', ''_'', ''_'', ''_'', ''_'', ''_'', ''_'', ''_'']"
proof -
  have "node_fields [fresh_node 7] 0
          = Inr [''7'', ''_'', ''_'', ''_'', ''_'', ''_'', ''_'', ''_'', ''_'']"
    by (simp add: str_defs fresh_node_def new_NLPNode_def)
  moreover have "tsv_to_graph feats_reader [] [blank_row] = Inr (blank_heap, \<lparr>nodes = [1, 0]\<rparr>)"
    by (simp add: feats_reader_def blank_row_def blank_heap_def reader_defs)
  moreover have "feats (blank_heap ! 0) = None" "feats (fresh_node 7) = Some []"
    by (simp_all add: blank_heap_def fresh_node_def new_NLPNode_def)
  moreover have "node_fields blank_heap 0
          = Inr [''1'', ''a'', ''_'', ''_'', ''_'', ''_'', ''_'', ''_'', ''_'']"
    by (simp add: blank_heap_def str_defs default_NLPNode_def new_NLPNode_def)
  ultimately show ?thesis by simp
qed

subsection \<open>Rendering and re-parsing\<close>

lemma attach_heads_nonempty: "xs \<noteq> [] \<Longrightarrow> attach_heads cfg tsv h g xs = Inl NameError"
  by (cases xs) auto

lemma init_nodes_length:
  "init_nodes cfg tsv is h = Inr (h1, as) \<Longrightarrow> length as = length is"
  by (induction "is" arbitrary: h h1 as) (auto split: sum.splits prod.splits simp: alloc_def)

text \<open>With a head-id column configured, no block of one row or more is turned into a graph.\<close>

lemma tsv_to_graph_heads_never_returns:
  assumes "head_id_index cfg \<ge> 0" and "tsv \<noteq> []"
  shows "tsv_to_graph cfg h tsv \<noteq> Inr r"
proof
  assume r: "tsv_to_graph cfg h tsv = Inr r"
  then obtain h1 ns where i: "init_nodes cfg tsv [0..<length tsv] h = Inr (h1, ns)"
    by (auto simp: tsv_to_graph_def split: sum.splits)
  from init_nodes_length [OF i] assms(2) have "ns \<noteq> []" by auto
  then have "enumerate 0 (graph_iter (snd (new_NLPGraph h1 (Some ns)))) \<noteq> []"
    by (cases ns) (simp_all add: new_NLPGraph_def alloc_def graph_iter_def islice_def)
  from attach_heads_nonempty [OF this] r i assms(1) show False
    by (simp add: tsv_to_graph_def split: prod.splits)
qed

text \<open>
  C1. The three-token sentence with one secondary head renders to three lines of nine
  fields. Reading that text back with the matching column configuration does not give a
  graph: \<^verbatim>\<open>tsv_to_graph\<close> raises \<^verbatim>\<open>NameError\<close> at the first head it resolves, since the name
  \<^verbatim>\<open>NLPArc\<close> it calls there is bound nowhere.
\<close>

theorem roundtrip_raises_NameError:
  "graph_str sentence sentence_graph = Inr sentence_text \<and>
   reader_next conll_reader sentence (file_lines sentence_text) = ([], Inl NameError)"
  by code_simp

subsection \<open>Sequential and parallel extraction\<close>

text \<open>
  When no worker gets an empty slice, the parallel call returns what the sequential call
  returns: the slices are contiguous and cover the list, and the labels are added in the
  same order.
\<close>

lemma add_labels_append:
  "add_labels m (ys @ zs) =
     (let (m1, is) = add_labels m ys; (m2, js) = add_labels m1 zs in (m2, is @ js))"
  by (induction ys arbitrary: m) (auto simp: Let_def split: prod.splits)

lemma xys_all_concat:
  assumes "\<forall>c\<in>set cs. c \<noteq> []"
  shows "\<exists>m' rs. xys_all m cs = Inr (m', rs) \<and>
           concat (map fst rs) = map fst (concat cs) \<and>
           (m', concat (map snd rs)) = add_labels m (map snd (concat cs))"
  using assms
proof (induction cs arbitrary: m)
  case Nil
  then show ?case by simp
next
  case (Cons c cs)
  from Cons.prems have c: "c \<noteq> []" and rest: "\<forall>c\<in>set cs. c \<noteq> []" by simp_all
  obtain m1 "is" where a: "add_labels m (map snd c) = (m1, is)" by (cases "add_labels m (map snd c)")
  from Cons.IH [OF rest, of m1] obtain m' rs where
    r: "xys_all m1 cs = Inr (m', rs)" "concat (map fst rs) = map fst (concat cs)"
       "(m', concat (map snd rs)) = add_labels m1 (map snd (concat cs))" by blast
  from c a r(1) have "xys_all m (c # cs) = Inr (m', (map fst c, is) # rs)"
    by (simp add: unpack_zip_def)
  moreover have "add_labels m (map snd (concat (c # cs))) = (m', is @ concat (map snd rs))"
    using a r(3) [symmetric] by (simp add: add_labels_append)
  ultimately show ?case using r(2) by simp
qed

lemma concat_slices:
  "concat (map (\<lambda>i. islice xs (i * s) (min ((i + 1) * s) (length xs))) [0..<k]) = take (k * s) xs"
proof (induction k)
  case 0
  then show ?case by simp
next
  case (Suc k)
  have "take (min (Suc k * s) (length xs)) xs = take (Suc k * s) xs"
    by (simp add: min_def)
  then have "islice xs (k * s) (min ((k + 1) * s) (length xs)) = take s (drop (k * s) xs)"
    by (simp add: islice_def drop_take)
  moreover have "take (Suc k * s) xs = take (k * s) xs @ take s (drop (k * s) xs)"
  proof -
    have "Suc k * s = k * s + s" by simp
    then show ?thesis by (simp only: take_add)
  qed
  ultimately show ?case using Suc by simp
qed

lemma islice_nonempty: "a < b \<Longrightarrow> a < length xs \<Longrightarrow> islice xs a (min b (length xs)) \<noteq> []"
  by (simp add: islice_def)

lemma ceil_div_covers: "0 < k \<Longrightarrow> n \<le> k * ((n + k - 1) div k)" for n k :: nat
proof -
  assume k: "0 < k"
  have "n + k - 1 < k * ((n + k - 1) div k) + k"
    using k by (metis add.commute dividend_less_times_div mult.commute)
  then show ?thesis by simp
qed

lemma train_instances_parallel_eq_sequential:
  assumes "1 < k" and "(k - 1) * ((length states + k - 1) div k) < length states"
  shows "train_instances xf gold m states (int k) = train_instances xf gold m states 1"
proof -
  define n where "n = length states"
  define s where "s = (n + k - 1) div k"
  define f where "f = (\<lambda>state. (xf state, gold state))"
  define cs where "cs = map (\<lambda>i. instances xf gold states i s) [0..<k]"
  from assms(2) have less: "(k - 1) * s < n" by (simp add: n_def s_def)
  then have n: "0 < n" by linarith
  have cover: "n \<le> k * s" unfolding s_def using assms(1) by (intro ceil_div_covers) simp
  have s: "0 < s"
  proof (rule ccontr)
    assume "\<not> 0 < s"
    then have "k * s = 0" by simp
    with cover n show False by simp
  qed
  have "cs = map (map f) (map (\<lambda>i. islice states (i * s) (min ((i + 1) * s) (length states))) [0..<k])"
    by (simp add: cs_def instances_def f_def)
  then have "concat cs
      = map f (concat (map (\<lambda>i. islice states (i * s) (min ((i + 1) * s) (length states))) [0..<k]))"
    by (simp only: map_concat)
  also have "\<dots> = map f (take (k * s) states)" by (simp only: concat_slices)
  also have "\<dots> = map f states" using cover by (simp add: n_def)
  finally have cc: "concat cs = map f states" .
  have ne: "\<forall>c\<in>set cs. c \<noteq> []"
  proof
    fix c assume "c \<in> set cs"
    then obtain i where i: "i < k" and c: "c = instances xf gold states i s"
      by (auto simp: cs_def)
    from i have "i \<le> k - 1" by arith
    then have "i * s \<le> (k - 1) * s" by (rule mult_le_mono1)
    from this less have "i * s < n" by (rule le_less_trans)
    then have lt: "i * s < length states" by (simp add: n_def)
    have "i * s < (i + 1) * s" using s by simp
    from this lt have "islice states (i * s) (min ((i + 1) * s) (length states)) \<noteq> []"
      by (rule islice_nonempty)
    with c show "c \<noteq> []" by (simp add: instances_def)
  qed
  from xys_all_concat [OF ne, of m] obtain m' rs where
    r: "xys_all m cs = Inr (m', rs)" "concat (map fst rs) = map fst (concat cs)"
       "(m', concat (map snd rs)) = add_labels m (map snd (concat cs))" by blast
  have xs: "fst \<circ> f = xf" and ys: "snd \<circ> f = gold"
    by (auto simp: f_def)
  have "train_instances xf gold m states (int k)
          = (case xys_all m cs of Inl e \<Rightarrow> Inl e
             | Inr (m1, rs) \<Rightarrow> Inr (m1, (concat (map fst rs), concat (map snd rs))))"
    using assms(1) by (simp add: train_instances_def Let_def cs_def s_def n_def)
  then have par: "train_instances xf gold m states (int k)
               = Inr (m', (map xf states, concat (map snd rs)))"
    using r(1) r(2) by (simp add: cc xs)
  have "instances xf gold states 0 (length states) = map f states"
    by (simp add: instances_def islice_def f_def)
  moreover have "map f states \<noteq> []" using n by (simp add: n_def)
  moreover have "add_labels m (map gold states) = (m', concat (map snd rs))"
    using r(3) by (simp add: cc ys)
  ultimately have "train_instances xf gold m states 1
               = Inr (m', (map xf states, concat (map snd rs)))"
    by (simp add: train_instances_def unpack_zip_def xs ys)
  with par show ?thesis by simp
qed

text \<open>
  C4. Five states and four workers: the chunk size is 2, the fourth chunk is the empty
  slice from 6 to 5, and unpacking its \<^verbatim>\<open>zip()\<close> raises \<^verbatim>\<open>ValueError\<close>, after the labels of the
  first three chunks have been added to the vocabulary. The sequential call on the same
  states returns.
\<close>

theorem train_instances_empty_chunk_raises:
  "train_instances xf gold m [a, b, c, d, e] 4
     = Inl (ValueError, fst (add_labels m (map gold [a, b, c, d, e]))) \<and>
   (\<exists>r. train_instances xf gold m [a, b, c, d, e] 1 = Inr r)"
proof -
  have "train_instances xf gold m [a, b, c, d, e] 4
          = Inl (ValueError, fst (add_labels m (map gold [a, b, c, d, e])))"
    by (simp add: train_instances_def instances_def islice_def unpack_zip_def Let_def upt_rec
        split: prod.splits)
  moreover have "\<exists>r. train_instances xf gold m [a, b, c, d, e] 1 = Inr r"
    by (simp add: train_instances_def instances_def islice_def unpack_zip_def Let_def
        split: prod.splits)
  ultimately show ?thesis by simp
qed

subsection \<open>evaluate\<close>

lemma processed_trans:
  assumes "processed ops t u" and "processed ops s t"
  shows "processed ops s u"
  using assms by (induction rule: processed.induct) (auto intro: processed.intros)

lemma process_all_props:
  assumes "process_all ops m S zs = Inr S1"
  shows "length S1 = length S \<and> (\<forall>a. processed ops (S ! a) (S1 ! a)) \<and>
         (\<forall>a. a \<notin> fst ` set zs \<longrightarrow> S1 ! a = S ! a)"
  using assms
proof (induction zs arbitrary: S)
  case Nil
  then show ?case by (simp add: processed_refl)
next
  case (Cons z zs)
  obtain b yhats where z: "z = (b, yhats)" by (cases z)
  from Cons.prems z obtain l where
    rest: "process_all ops m (S[b := process_fn ops (S ! b) l yhats]) zs = Inr S1"
    by (auto split: sum.splits)
  let ?S = "S[b := process_fn ops (S ! b) l yhats]"
  note ih = Cons.IH [OF rest]
  have step: "processed ops (S ! a) (?S ! a)" for a
    by (simp add: upd_nth_cases processed_refl processed_step)
  have "processed ops (S ! a) (S1 ! a)" for a
    using processed_trans [OF _ step [of a]] ih by blast
  moreover have "S1 ! a = S ! a" if "a \<notin> fst ` set (z # zs)" for a
  proof -
    from that z have "a \<noteq> b" "a \<notin> fst ` set zs" by auto
    then show ?thesis using ih by (simp add: upd_nth_cases)
  qed
  ultimately show ?case using ih by simp
qed

lemma advance_Suc:
  "states \<noteq> [] \<Longrightarrow>
   advance (Suc fuel) ops m S states =
     (case process_all ops m S (zip states (predict_fn ops (map (\<lambda>s. x_fn ops (S ! s)) states))) of
        Inl e \<Rightarrow> Some (Inl e)
      | Inr S1 \<Rightarrow> advance fuel ops m S1 (filter (\<lambda>s. \<not> terminate_fn ops (S1 ! s)) states))"
  by (cases states) (auto simp: Let_def)

lemma advance_0: "states \<noteq> [] \<Longrightarrow> advance 0 ops m S states = None"
  by (cases states) simp_all

lemma advance_props:
  assumes "advance fuel ops m S states = Some (Inr S1)"
  shows "length S1 = length S \<and> (\<forall>a. processed ops (S ! a) (S1 ! a)) \<and>
         (\<forall>a. a \<notin> set states \<longrightarrow> S1 ! a = S ! a) \<and>
         (\<forall>a\<in>set states. terminate_fn ops (S1 ! a))"
  using assms
proof (induction fuel arbitrary: S states)
  case 0
  then show ?case by (cases states) (simp_all add: processed_refl)
next
  case (Suc fuel)
  show ?case
  proof (cases "states = []")
    case True
    with Suc.prems show ?thesis by (simp add: processed_refl)
  next
    case False
    let ?zs = "zip states (predict_fn ops (map (\<lambda>s. x_fn ops (S ! s)) states))"
    from Suc.prems False obtain S' where
      pa: "process_all ops m S ?zs = Inr S'" and
      adv: "advance fuel ops m S' (filter (\<lambda>s. \<not> terminate_fn ops (S' ! s)) states) = Some (Inr S1)"
      by (auto simp: advance_Suc split: sum.splits)
    note p = process_all_props [OF pa]
    note ih = Suc.IH [OF adv]
    have sub: "fst ` set ?zs \<subseteq> set states"
      by (auto dest: set_zip_leftD)
    have "processed ops (S ! a) (S1 ! a)" for a
      using processed_trans [of ops "S' ! a" "S1 ! a" "S ! a"] p ih by blast
    moreover have "S1 ! a = S ! a" if "a \<notin> set states" for a
    proof -
      from that sub have "a \<notin> fst ` set ?zs" by blast
      then have "S' ! a = S ! a" using p by blast
      moreover from that have "S1 ! a = S' ! a" using ih by simp
      ultimately show ?thesis by simp
    qed
    moreover have "terminate_fn ops (S1 ! a)" if "a \<in> set states" for a
    proof (cases "terminate_fn ops (S' ! a)")
      case True
      then have "S1 ! a = S' ! a" using ih by simp
      with True show ?thesis by simp
    next
      case False
      with that show ?thesis using ih by simp
    qed
    ultimately show ?thesis using p ih by simp
  qed
qed

lemma eval_loop_snoc:
  "eval_loop ops S (as @ [b]) stats acc =
     snd (eval_fn ops (S ! b) (fold (\<lambda>a st. fst (eval_fn ops (S ! a) st)) as stats))"
  by (induction as arbitrary: stats acc) (auto split: prod.splits)

lemma eval_loop_state_eval:
  assumes "eval_fn ops = state_eval outcome ratio" and "as \<noteq> []"
  shows "eval_loop ops S as stats acc =
           ratio (fst stats + sum_list (map (\<lambda>a. fst (outcome (S ! a))) as),
                  snd stats + sum_list (map (\<lambda>a. snd (outcome (S ! a))) as))"
  using assms(2)
proof (induction as arbitrary: stats acc)
  case Nil
  then show ?case by simp
next
  case (Cons a as)
  show ?case
  proof (cases "as = []")
    case True
    then show ?thesis by (simp add: assms(1) state_eval_def Let_def)
  next
    case False
    from Cons.IH [OF False] show ?thesis
      by (simp add: assms(1) state_eval_def Let_def add.assoc)
  qed
qed


lemma argmax_from_bound: "best < i \<Longrightarrow> argmax_from ys i best v < i + length ys"
proof (induction ys arbitrary: i best v)
  case Nil
  then show ?case by simp
next
  case (Cons y ys)
  have "argmax_from ys (Suc i) b w < Suc i + length ys" if "b < Suc i" for b w
    using Cons.IH [OF that] .
  from this [of i y] this [of best v] Cons.prems show ?case by simp
qed

lemma member_le_sum_map: "a \<in> set as \<Longrightarrow> f a \<le> sum_list (map f as)" for f :: "'a \<Rightarrow> nat"
  by (induction as) auto

lemma argmax_bound:
  assumes "ys \<noteq> []"
  shows "\<exists>i. argmax ys = Inr i \<and> i < length ys"
proof (cases ys)
  case Nil
  with assms show ?thesis by simp
next
  case (Cons y r)
  have "argmax_from r 1 0 y < 1 + length r" by (rule argmax_from_bound) simp
  with Cons show ?thesis by (simp add: argmax_def)
qed

lemma get_label_in_range: "i < num_label m \<Longrightarrow> get_label m (int i) = Inr (labels m ! i)"
  by (simp add: get_label_def py_get_def num_label_def)

lemma process_all_ok:
  assumes "0 < num_label m" and "\<forall>z\<in>set zs. snd z \<noteq> []"
  shows "\<exists>S1. process_all ops m S zs = Inr S1"
  using assms(2)
proof (induction zs arbitrary: S)
  case Nil
  then show ?case by simp
next
  case (Cons z zs)
  obtain b yhats where z: "z = (b, yhats)" by (cases z)
  let ?v = "if length yhats = num_label m then yhats else take (num_label m) yhats"
  from Cons.prems z have "yhats \<noteq> []" by simp
  with assms(1) have "?v \<noteq> []" by auto
  from argmax_bound [OF this] obtain i where i: "argmax ?v = Inr i" "i < length ?v" by blast
  have "length ?v \<le> num_label m" by simp
  with i(2) have "i < num_label m" by simp
  from get_label_in_range [OF this] have l: "get_label m (int i) = Inr (labels m ! i)" .
  from Cons.prems have "\<forall>z\<in>set zs. snd z \<noteq> []" by simp
  from Cons.IH [OF this] obtain S1 where
    "process_all ops m (S[b := process_fn ops (S ! b) (labels m ! i) yhats]) zs = Inr S1"
    by blast
  with i(1) l z show ?case by simp
qed

lemma process_all_distinct:
  assumes "process_all ops m S zs = Inr S1" and "distinct (map fst zs)"
    and "(a, ys) \<in> set zs" and "a < length S"
  shows "\<exists>l. S1 ! a = process_fn ops (S ! a) l ys"
  using assms
proof (induction zs arbitrary: S)
  case Nil
  then show ?case by simp
next
  case (Cons z zs)
  obtain b yhats where z: "z = (b, yhats)" by (cases z)
  from Cons.prems(1) z obtain l where
    rest: "process_all ops m (S[b := process_fn ops (S ! b) l yhats]) zs = Inr S1"
    by (auto split: sum.splits)
  let ?S = "S[b := process_fn ops (S ! b) l yhats]"
  show ?case
  proof (cases "(a, ys) = (b, yhats)")
    case True
    with Cons.prems(2) z have "a \<notin> fst ` set zs" by auto
    with process_all_props [OF rest] have "S1 ! a = ?S ! a" by blast
    with True Cons.prems(4) show ?thesis by auto
  next
    case False
    with Cons.prems(3) z have mem: "(a, ys) \<in> set zs" by auto
    with Cons.prems(2) z have "a \<noteq> b" by force
    from Cons.prems(2) have d: "distinct (map fst zs)" by simp
    from Cons.prems(4) have len: "a < length ?S" by simp
    from Cons.IH [OF rest d mem len] \<open>a \<noteq> b\<close> show ?thesis by simp
  qed
qed

lemma advance_terminates:
  assumes wb: "well_behaved ops m \<mu>"
  shows "distinct states \<Longrightarrow> \<forall>a\<in>set states. a < length S \<and> \<mu> (S ! a) < n \<Longrightarrow>
         \<exists>S1. advance n ops m S states = Some (Inr S1)"
proof (induction n arbitrary: S states)
  case 0
  then have "states = []" by (cases states) auto
  then show ?case by simp
next
  case (Suc n)
  show ?case
  proof (cases "states = []")
    case True
    then show ?thesis by simp
  next
    case False
    let ?preds = "predict_fn ops (map (\<lambda>s. x_fn ops (S ! s)) states)"
    let ?zs = "zip states ?preds"
    from wb have len: "length ?preds = length states" and ne: "[] \<notin> set ?preds"
      and lab: "0 < num_label m"
      and dec: "\<And>s l ys. terminate_fn ops (process_fn ops s l ys)
                         \<or> \<mu> (process_fn ops s l ys) < \<mu> s"
      by (simp_all add: well_behaved_def)
    have fst_zs: "map fst ?zs = states" using len by simp
    have "\<forall>z\<in>set ?zs. snd z \<noteq> []" using ne by (auto dest: set_zip_rightD)
    from process_all_ok [OF lab this] obtain S' where pa: "process_all ops m S ?zs = Inr S'"
      by blast
    let ?act = "filter (\<lambda>s. \<not> terminate_fn ops (S' ! s)) states"
    have lenS: "length S' = length S" using process_all_props [OF pa] by simp
    have "\<forall>a\<in>set ?act. a < length S' \<and> \<mu> (S' ! a) < n"
    proof
      fix a assume a: "a \<in> set ?act"
      then have mem: "a \<in> set states" and nt: "\<not> terminate_fn ops (S' ! a)" by simp_all
      from mem fst_zs have "a \<in> fst ` set ?zs" by (metis set_map)
      then obtain ys where z: "(a, ys) \<in> set ?zs" by auto
      from Suc.prems(2) mem have al: "a < length S" and mu: "\<mu> (S ! a) < Suc n" by auto
      from Suc.prems(1) fst_zs have "distinct (map fst ?zs)" by simp
      from process_all_distinct [OF pa this z al] obtain l where
        "S' ! a = process_fn ops (S ! a) l ys" by blast
      with dec [of "S ! a" l ys] nt have "\<mu> (S' ! a) < \<mu> (S ! a)" by auto
      with mu al lenS show "a < length S' \<and> \<mu> (S' ! a) < n" by simp
    qed
    moreover have "distinct ?act" using Suc.prems(1) by simp
    ultimately obtain S1 where "advance n ops m S' ?act = Some (Inr S1)"
      using Suc.IH by blast
    with pa False show ?thesis by (simp add: advance_Suc)
  qed
qed

lemma reset_all_length: "length (reset_all ops S as) = length S"
  by (induction as arbitrary: S) simp_all

lemma evaluate_result:
  assumes "evaluate fuel ops m S states = Some (Inr (S1, acc))"
  shows "(\<forall>a\<in>set states. terminate_fn ops (S1 ! a)) \<and>
         (\<forall>a. processed ops (reset_all ops S states ! a) (S1 ! a)) \<and>
         acc = (if states = [] then 0
                else snd (eval_fn ops (S1 ! last states)
                       (fold (\<lambda>a st. fst (eval_fn ops (S1 ! a) st)) (butlast states) (0, 0)))) \<and>
         (\<forall>outcome ratio. eval_fn ops = state_eval outcome ratio \<and> states \<noteq> [] \<longrightarrow>
            acc = ratio (sum_list (map (\<lambda>a. fst (outcome (S1 ! a))) states),
                         sum_list (map (\<lambda>a. snd (outcome (S1 ! a))) states)))"
proof -
  from assms have adv: "advance fuel ops m (reset_all ops S states) states = Some (Inr S1)"
    and acc: "acc = eval_loop ops S1 states (0, 0) 0"
    by (auto simp: evaluate_def Let_def split: option.splits sum.splits)
  note p = advance_props [OF adv]
  have "acc = snd (eval_fn ops (S1 ! last states)
                (fold (\<lambda>a st. fst (eval_fn ops (S1 ! a) st)) (butlast states) (0, 0)))"
    if "states \<noteq> []"
  proof -
    from that have "states = butlast states @ [last states]" by simp
    then have "eval_loop ops S1 states (0, 0) 0 =
                 eval_loop ops S1 (butlast states @ [last states]) (0, 0) 0" by simp
    then show ?thesis unfolding acc eval_loop_snoc .
  qed
  moreover have "acc = 0" if "states = []" using that acc by simp
  moreover have "acc = ratio (sum_list (map (\<lambda>a. fst (outcome (S1 ! a))) states),
                              sum_list (map (\<lambda>a. snd (outcome (S1 ! a))) states))"
    if "eval_fn ops = state_eval outcome ratio" "states \<noteq> []" for outcome ratio
    unfolding acc using eval_loop_state_eval [OF that, of S1 "(0, 0)" 0] by simp
  ultimately show ?thesis using p by auto
qed

lemma evaluate_returns:
  assumes "distinct states" and "\<forall>a\<in>set states. a < length S" and "well_behaved ops m \<mu>"
  shows "\<exists>fuel S1 acc. evaluate fuel ops m S states = Some (Inr (S1, acc))"
proof -
  let ?S0 = "reset_all ops S states"
  let ?n = "Suc (sum_list (map (\<lambda>a. \<mu> (?S0 ! a)) states))"
  have "\<forall>a\<in>set states. a < length ?S0 \<and> \<mu> (?S0 ! a) < ?n"
  proof
    fix a assume a: "a \<in> set states"
    then have "\<mu> (?S0 ! a) \<le> sum_list (map (\<lambda>a. \<mu> (?S0 ! a)) states)"
      by (rule member_le_sum_map)
    with a assms(2) show "a < length ?S0 \<and> \<mu> (?S0 ! a) < ?n"
      by (simp add: reset_all_length)
  qed
  from advance_terminates [OF assms(3) assms(1) this] obtain S1 where
    "advance ?n ops m ?S0 states = Some (Inr S1)" by blast
  then have "evaluate ?n ops m S states = Some (Inr (S1, eval_loop ops S1 states (0, 0) 0))"
    by (simp add: evaluate_def Let_def)
  then show ?thesis by blast
qed


text \<open>
  C3. Whenever \<^verbatim>\<open>evaluate\<close> returns a store and a score: every input state is terminated in
  that store; each state of the store comes from its reset state by \<^verbatim>\<open>process\<close> calls alone
  (the loop resets nothing); the score is what the \<^verbatim>\<open>eval\<close> call of the last input state
  returned, on the running total that the calls for the states before it built up in input
  order (0 for no state); and with \<^verbatim>\<open>eval\<close> as the spec describes it, the score is the
  ratio of the totals over all input states. And \<^verbatim>\<open>evaluate\<close> does return, for distinct
  states of a well-behaved component.
\<close>

theorem evaluate_returns_last_ratio:
  "(\<forall>fuel S1 acc. evaluate fuel ops m S states = Some (Inr (S1, acc)) \<longrightarrow>
      (\<forall>a\<in>set states. terminate_fn ops (S1 ! a)) \<and>
      (\<forall>a. processed ops (reset_all ops S states ! a) (S1 ! a)) \<and>
      acc = (if states = [] then 0
             else snd (eval_fn ops (S1 ! last states)
                    (fold (\<lambda>a st. fst (eval_fn ops (S1 ! a) st)) (butlast states) (0, 0)))) \<and>
      (\<forall>outcome ratio. eval_fn ops = state_eval outcome ratio \<and> states \<noteq> [] \<longrightarrow>
         acc = ratio (sum_list (map (\<lambda>a. fst (outcome (S1 ! a))) states),
                      sum_list (map (\<lambda>a. snd (outcome (S1 ! a))) states)))) \<and>
   (distinct states \<and> (\<forall>a\<in>set states. a < length S) \<and> well_behaved ops m \<mu> \<longrightarrow>
      (\<exists>fuel S1 acc. evaluate fuel ops m S states = Some (Inr (S1, acc))))"
proof (intro conjI allI impI)
  fix fuel S1 acc
  assume e: "evaluate fuel ops m S states = Some (Inr (S1, acc))"
  note r = evaluate_result [OF e]
  from r show "\<forall>a\<in>set states. terminate_fn ops (S1 ! a)" by blast
  from r show "processed ops (reset_all ops S states ! a) (S1 ! a)" for a by blast
  from r show "acc = (if states = [] then 0
             else snd (eval_fn ops (S1 ! last states)
                    (fold (\<lambda>a st. fst (eval_fn ops (S1 ! a) st)) (butlast states) (0, 0))))"
    by blast
  fix outcome ratio
  assume "eval_fn ops = state_eval outcome ratio \<and> states \<noteq> []"
  with r show "acc = ratio (sum_list (map (\<lambda>a. fst (outcome (S1 ! a))) states),
                      sum_list (map (\<lambda>a. snd (outcome (S1 ! a))) states))" by blast
next
  assume "distinct states \<and> (\<forall>a\<in>set states. a < length S) \<and> well_behaved ops m \<mu>"
  then show "\<exists>fuel S1 acc. evaluate fuel ops m S states = Some (Inr (S1, acc))"
    using evaluate_returns by blast
qed

lemma two_labels_eq: "two_labels = \<lparr>index_map = [(''A'', 0), (''B'', 1)], labels = [''A'', ''B'']\<rparr>"
  by (simp add: two_labels_def add_label_def get_label_index_def new_NLPModel_def Let_def)

theorem evaluate_returns_last_ratio_witness:
  "evaluate 2 countdown two_labels [5, 7] [0, 1] = Some (Inr ([0, 0], 50)) \<and>
   terminate_fn countdown ([0, 0] ! 0) \<and> terminate_fn countdown ([0, 0] ! 1) \<and>
   distinct [0, 1 :: nat] \<and> 0 < length [5, 7 :: nat] \<and> 1 < length [5, 7 :: nat] \<and>
   well_behaved countdown two_labels (\<lambda>s. s) \<and>
   (\<exists>fuel S1 acc. evaluate fuel countdown two_labels [5, 7] [0, 1] = Some (Inr (S1, acc)))"
proof -
  have e: "evaluate 2 countdown two_labels [5, 7] [0, 1] = Some (Inr ([0, 0], 50))"
    by (simp add: evaluate_def countdown_def two_labels_eq eval_nat_numeral num_label_def
        argmax_def get_label_def py_get_def state_eval_def Let_def)
  have w: "well_behaved countdown two_labels (\<lambda>s. s)"
    by (auto simp: well_behaved_def countdown_def two_labels_eq num_label_def)
  from evaluate_returns_last_ratio [of countdown two_labels "[5, 7]" "[0, 1]" "\<lambda>s. s"] e w
  show ?thesis by (auto simp: countdown_def)
qed


end
